theory Spec2Isabelle
  imports Main "HOL-Library.Sublist"
begin

section \<open>Text and list primitives of the source language\<close>

text \<open>
  Python \<open>str\<close> values are modelled as \<open>string\<close>. The correspondence is exact for
  ASCII text. A character outside ASCII is carried as the bytes of its UTF-8 encoding, which
  \<open>lower\<close> and the whitespace test leave alone, and which count as several characters
  in a slice.
\<close>

definition is_space :: "char \<Rightarrow> bool" where
  "is_space c = ((of_char c :: nat) \<in> {9, 10, 11, 12, 13, 28, 29, 30, 31, 32})"

definition lower_char :: "char \<Rightarrow> char" where
  "lower_char c =
     (case map_of (zip ''ABCDEFGHIJKLMNOPQRSTUVWXYZ'' ''abcdefghijklmnopqrstuvwxyz'') c of
        None \<Rightarrow> c
      | Some d \<Rightarrow> d)"

definition lower :: "string \<Rightarrow> string" where
  "lower s = map lower_char s"

definition lstrip :: "string \<Rightarrow> string" where
  "lstrip s = dropWhile is_space s"

definition rstrip :: "string \<Rightarrow> string" where
  "rstrip s = rev (dropWhile is_space (rev s))"

definition strip :: "string \<Rightarrow> string" where
  "strip s = rstrip (lstrip s)"

definition strip_chars :: "string \<Rightarrow> string \<Rightarrow> string" where
  "strip_chars cs s =
     rev (dropWhile (\<lambda>c. c \<in> set cs) (rev (dropWhile (\<lambda>c. c \<in> set cs) s)))"

text \<open>Python slice indices: a negative index counts from the end, and both ends clamp.\<close>

definition py_index :: "int \<Rightarrow> nat \<Rightarrow> nat" where
  "py_index i n = (if i < 0 then nat (max 0 (int n + i)) else min (nat i) n)"

definition slice_from :: "int \<Rightarrow> 'a list \<Rightarrow> 'a list" where
  "slice_from i xs = drop (py_index i (length xs)) xs"

definition slice_to :: "int \<Rightarrow> 'a list \<Rightarrow> 'a list" where
  "slice_to j xs = take (py_index j (length xs)) xs"

definition slice :: "int \<Rightarrow> int \<Rightarrow> 'a list \<Rightarrow> 'a list" where
  "slice i j xs =
     take (py_index j (length xs) - py_index i (length xs)) (drop (py_index i (length xs)) xs)"

text \<open>\<open>s.find(sub)\<close> and \<open>s.rfind(sub)\<close>; \<open>None\<close> stands for the result \<open>-1\<close>.\<close>

fun find_sub :: "string \<Rightarrow> string \<Rightarrow> nat option" where
  "find_sub sub [] = (if sub = [] then Some 0 else None)"
| "find_sub sub (c # cs) =
     (if prefix sub (c # cs) then Some 0 else map_option Suc (find_sub sub cs))"

fun rfind_sub :: "string \<Rightarrow> string \<Rightarrow> nat option" where
  "rfind_sub sub [] = (if sub = [] then Some 0 else None)"
| "rfind_sub sub (c # cs) =
     (case rfind_sub sub cs of
        Some i \<Rightarrow> Some (Suc i)
      | None \<Rightarrow> if prefix sub (c # cs) then Some 0 else None)"

text \<open>
  \<open>s.split(sep)\<close> and \<open>s.split(sep, 1)\<close>. The program splits on fixed, non-empty
  separators only; on the empty separator, where Python raises, \<open>split_on\<close> returns the
  string itself.
\<close>

function split_on :: "string \<Rightarrow> string \<Rightarrow> string list" where
  "split_on sep s =
     (if sep = [] \<or> s = [] then [s]
      else if prefix sep s then [] # split_on sep (drop (length sep) s)
      else (case split_on sep (tl s) of
              [] \<Rightarrow> [[hd s]]
            | p # ps \<Rightarrow> (hd s # p) # ps))"
  by pat_completeness auto
termination
  by (relation "measure (\<lambda>(sep, s). length s)") (auto simp: neq_Nil_conv)

declare split_on.simps [simp del]

definition split_once :: "string \<Rightarrow> string \<Rightarrow> string list" where
  "split_once sep s =
     (case find_sub sep s of
        None \<Rightarrow> [s]
      | Some i \<Rightarrow> [take i s, drop (i + length sep) s])"

text \<open>\<open>s.split()\<close>: the maximal runs of non-whitespace characters.\<close>

fun words_from :: "string \<Rightarrow> string \<Rightarrow> string list" where
  "words_from cur [] = (if cur = [] then [] else [cur])"
| "words_from cur (c # cs) =
     (if is_space c then (if cur = [] then words_from [] cs else cur # words_from [] cs)
      else words_from (cur @ [c]) cs)"

definition split_ws :: "string \<Rightarrow> string list" where
  "split_ws s = words_from [] s"

text \<open>\<open>s.replace(old, new)\<close>: left to right, non-overlapping.\<close>

function replace_all :: "string \<Rightarrow> string \<Rightarrow> string \<Rightarrow> string" where
  "replace_all old new s =
     (if old = [] then concat (map (\<lambda>c. new @ [c]) s) @ new
      else if s = [] then []
      else if prefix old s then new @ replace_all old new (drop (length old) s)
      else hd s # replace_all old new (tl s))"
  by pat_completeness auto
termination
  by (relation "measure (\<lambda>(old, new, s). length s)") (auto simp: neq_Nil_conv)

declare replace_all.simps [simp del]

text \<open>\<open>" or ".join(parts)\<close> and its like.\<close>

fun join :: "string \<Rightarrow> string list \<Rightarrow> string" where
  "join sep [] = []"
| "join sep [p] = p"
| "join sep (p # q # ps) = p @ sep @ join sep (q # ps)"

section \<open>Values and failures\<close>

text \<open>
  The values \<open>json.loads\<close> produces, with Python's truth test and \<open>dict.get\<close>. Numbers
  are the integers; a dictionary is the list of its items, read with \<open>map_of\<close>.
\<close>

datatype json =
    JNull
  | JBool bool
  | JInt int
  | JStr string
  | JArr "json list"
  | JObj "(string \<times> json) list"

fun truthy :: "json \<Rightarrow> bool" where
  "truthy JNull = False"
| "truthy (JBool b) = b"
| "truthy (JInt n) = (n \<noteq> 0)"
| "truthy (JStr s) = (s \<noteq> [])"
| "truthy (JArr xs) = (xs \<noteq> [])"
| "truthy (JObj kvs) = (kvs \<noteq> [])"

definition dict_get :: "(string \<times> json) list \<Rightarrow> string \<Rightarrow> json \<Rightarrow> json" where
  "dict_get kvs k d = (case map_of kvs k of None \<Rightarrow> d | Some v \<Rightarrow> v)"

text \<open>
  The exceptions of the program; all of them are subclasses of \<open>Exception\<close>, which is
  what every \<open>except\<close> clause of the program catches.
\<close>

datatype exn =
    CapabilityFailure string
  | JSONDecodeError
  | RecursionError
  | ValueError
  | AttributeError
  | TypeError
  | IndexError
  | KeyError

section \<open>ConversationHistory\<close>

record turn =
  role :: string
  content :: string
  timestamp :: string

record 'k conversation_history =
  max_length :: int
  histories :: "'k \<rightharpoonup> turn list"
  loop_tracker :: "'k \<rightharpoonup> string list"

definition new_history :: "int \<Rightarrow> 'k conversation_history" where
  "new_history m = \<lparr>max_length = m, histories = Map.empty, loop_tracker = Map.empty\<rparr>"

text \<open>\<open>add_message\<close>; the reading of the clock is the argument \<open>ts\<close>.\<close>

definition add_message ::
  "'k conversation_history \<Rightarrow> 'k \<Rightarrow> string \<Rightarrow> string \<Rightarrow> string \<Rightarrow> 'k conversation_history" where
  "add_message ch sid r c ts =
     (let h0 = (case histories ch sid of None \<Rightarrow> [] | Some h \<Rightarrow> h);
          h1 = h0 @ [\<lparr>role = r, content = c, timestamp = ts\<rparr>];
          h2 = (if int (length h1) > max_length ch then slice_from (- max_length ch) h1 else h1)
      in ch\<lparr>histories := (histories ch)(sid \<mapsto> h2)\<rparr>)"

definition get_history :: "'k conversation_history \<Rightarrow> 'k \<Rightarrow> turn list" where
  "get_history ch sid = (case histories ch sid of None \<Rightarrow> [] | Some h \<Rightarrow> h)"

definition context_line :: "turn \<Rightarrow> string" where
  "context_line msg =
     (if role msg = ''user'' then ''User'' else ''Soulene'') @ '': '' @ content msg @ [CHR 0x0A]"

definition get_recent_context :: "'k conversation_history \<Rightarrow> 'k \<Rightarrow> int \<Rightarrow> string" where
  "get_recent_context ch sid limit =
     (let history = get_history ch sid;
          recent = (if int (length history) > limit then slice_from (- limit) history else history)
      in concat (map context_line recent))"

definition grounding_keywords :: "string list" where
  "grounding_keywords =
     [''breathe'', ''breath'', ''ground'', ''present'', ''room'', ''sit'', ''feet'']"

definition has_grounding :: "string \<Rightarrow> bool" where
  "has_grounding s = (\<exists>keyword \<in> set grounding_keywords. sublist keyword (lower s))"

definition detect_loop ::
  "'k conversation_history \<Rightarrow> 'k \<Rightarrow> string \<Rightarrow> bool \<times> 'k conversation_history" where
  "detect_loop ch sid new_response =
     (let w = (case loop_tracker ch sid of None \<Rightarrow> [] | Some w \<Rightarrow> w);
          ch1 = ch\<lparr>loop_tracker := (loop_tracker ch)(sid \<mapsto> w)\<rparr>;
          recent_responses = slice_from (- 3) w;
          grounding_count = length (filter has_grounding recent_responses)
      in if has_grounding new_response \<and> grounding_count \<ge> 2 then (True, ch1)
         else
           (let w1 = w @ [new_response];
                w2 = (if length w1 > 5 then slice_from (- 5) w1 else w1)
            in (False, ch1\<lparr>loop_tracker := (loop_tracker ch1)(sid \<mapsto> w2)\<rparr>)))"

definition clear_session :: "'k conversation_history \<Rightarrow> 'k \<Rightarrow> 'k conversation_history" where
  "clear_session ch sid =
     ch\<lparr>histories := (histories ch)(sid := None), loop_tracker := (loop_tracker ch)(sid := None)\<rparr>"

text \<open>The loop window of a session: the tracker's entry, empty when there is none.\<close>

definition window :: "'k conversation_history \<Rightarrow> 'k \<Rightarrow> string list" where
  "window ch sid = (case loop_tracker ch sid of None \<Rightarrow> [] | Some w \<Rightarrow> w)"

text \<open>A run of calls to \<open>add_message\<close> on one session, each with its role, content and clock reading.\<close>

fun add_all ::
  "'k conversation_history \<Rightarrow> 'k \<Rightarrow> (string \<times> string \<times> string) list \<Rightarrow> 'k conversation_history" where
  "add_all ch sid [] = ch"
| "add_all ch sid ((r, c, ts) # ms) = add_all (add_message ch sid r c ts) sid ms"

definition mk_turn :: "string \<times> string \<times> string \<Rightarrow> turn" where
  "mk_turn m = (case m of (r, c, ts) \<Rightarrow> \<lparr>role = r, content = c, timestamp = ts\<rparr>)"

text \<open>The newest \<open>n\<close> elements of a list, in their order.\<close>

definition newest :: "nat \<Rightarrow> 'a list \<Rightarrow> 'a list" where
  "newest n xs = drop (length xs - n) xs"

section \<open>Utility functions\<close>

definition nl :: char where
  "nl = CHR 0x0A"

definition get :: "'a list \<Rightarrow> nat \<Rightarrow> exn + 'a" where
  "get xs i = (if i < length xs then Inr (xs ! i) else Inl IndexError)"

definition fenced :: "string \<Rightarrow> string \<Rightarrow> exn + string" where
  "fenced fence text =
     (case get (split_on fence text) 1 of
        Inl e \<Rightarrow> Inl e
      | Inr a \<Rightarrow> (case get (split_on ''```'' a) 0 of
                   Inl e \<Rightarrow> Inl e
                 | Inr b \<Rightarrow> Inr (strip b)))"

definition clean_json_response :: "string \<Rightarrow> exn + string" where
  "clean_json_response text0 =
     (let text = strip text0 in
      case (if sublist ''```json'' text then fenced ''```json'' text
            else if sublist ''```'' text then fenced ''```'' text
            else Inr text) of
        Inl e \<Rightarrow> Inl e
      | Inr text1 \<Rightarrow>
          (case find_sub ''{'' text1 of
             None \<Rightarrow> Inr text1
           | Some start \<Rightarrow>
               (let end = (case rfind_sub ''}'' text1 of None \<Rightarrow> 0 | Some i \<Rightarrow> int i + 1)
                in Inr (slice (int start) end text1))))"

definition format_history_for_gemini :: "turn list \<Rightarrow> (string \<times> string list) list" where
  "format_history_for_gemini history =
     map (\<lambda>msg. (if role msg = ''user'' then ''user'' else ''model'', [content msg])) history"

fun scan_words :: "string list \<Rightarrow> string option" where
  "scan_words (word # next # ws) =
     (if lower word \<in> set [''in'', ''from''] then Some (strip_chars ''.,!?'' next)
      else scan_words (next # ws))"
| "scan_words ws = None"

fun detect_user_location :: "turn list \<Rightarrow> string option" where
  "detect_user_location [] = None"
| "detect_user_location (msg # history) =
     (if role msg = ''user''
         \<and> (\<exists>word \<in> set [''i live in'', ''i am in'', ''from'']. sublist word (lower (content msg)))
      then (case scan_words (split_ws (content msg)) of
              Some loc \<Rightarrow> Some loc
            | None \<Rightarrow> detect_user_location history)
      else detect_user_location history)"

section \<open>External capabilities\<close>

text \<open>
  The library functions the program calls and the five generative models it consults.
  \<open>json_loads\<close> and \<open>json_dumps\<close> return or raise; \<open>py_str\<close> is the text an f-string
  gives for a value that is not a string. \<open>jsonify\<close> serialises the body of a response:
  it gives the exception it raises on that body, or \<open>None\<close> when it builds the response.
  A model maps its prompt to the text of its response, or raises (an error of the service,
  a timeout, a response without text).
\<close>

record pylib =
  json_loads :: "string \<Rightarrow> exn + json"
  json_dumps :: "json \<Rightarrow> exn + string"
  py_str :: "json \<Rightarrow> string"
  jsonify :: "(string \<times> json) list \<Rightarrow> exn option"

record models =
  pre_check_model :: "string \<Rightarrow> exn + string"
  detector_model :: "string \<Rightarrow> exn + string"
  soulene_model :: "(string \<times> string list) list \<Rightarrow> string \<Rightarrow> exn + string"
  counter_llm :: "string \<Rightarrow> exn + string"
  lookup_model :: "string \<Rightarrow> exn + string"

section \<open>PreCheckCounter\<close>

definition pre_check_prompt :: "string \<Rightarrow> string \<Rightarrow> string" where
  "pre_check_prompt user_message recent_context =
     [nl] @ ''RECENT CONVERSATION CONTEXT:'' @ [nl] @ recent_context @ [nl, nl]
     @ ''CURRENT USER MESSAGE:'' @ [nl] @ user_message @ [nl, nl]
     @ ''Analyze for safety risks and output JSON only.'' @ [nl]"

definition safe_default :: "(string \<times> json) list" where
  "safe_default =
     [(''risk_level'', JStr ''none''),
      (''risk_type'', JStr ''none''),
      (''requires_intervention'', JBool False),
      (''intervention_type'', JStr ''none''),
      (''context_notes'', JStr []),
      (''block_response'', JBool False)]"

text \<open>The body of the \<open>try\<close> block of \<open>analyze\<close>, then \<open>analyze\<close> with its handler.\<close>

definition analyze_try :: "pylib \<Rightarrow> models \<Rightarrow> string \<Rightarrow> string \<Rightarrow> exn + (string \<times> json) list" where
  "analyze_try lib M user_message recent_context =
     (case pre_check_model M (pre_check_prompt user_message recent_context) of
        Inl e \<Rightarrow> Inl e
      | Inr text \<Rightarrow>
          (case clean_json_response text of
             Inl e \<Rightarrow> Inl e
           | Inr result_text \<Rightarrow>
               (case json_loads lib result_text of
                  Inl e \<Rightarrow> Inl e
                | Inr (JObj result) \<Rightarrow>
                    Inr [(''risk_level'', dict_get result ''risk_level'' (JStr ''none'')),
                         (''risk_type'', dict_get result ''risk_type'' (JStr ''none'')),
                         (''requires_intervention'',
                            dict_get result ''requires_intervention'' (JBool False)),
                         (''intervention_type'', dict_get result ''intervention_type'' (JStr ''none'')),
                         (''context_notes'', dict_get result ''context_notes'' (JStr [])),
                         (''block_response'', dict_get result ''block_response'' (JBool False))]
                | Inr _ \<Rightarrow> Inl ValueError)))"

definition analyze :: "pylib \<Rightarrow> models \<Rightarrow> string \<Rightarrow> string \<Rightarrow> (string \<times> json) list" where
  "analyze lib M user_message recent_context =
     (case analyze_try lib M user_message recent_context of
        Inl e \<Rightarrow> safe_default
      | Inr r \<Rightarrow> r)"

section \<open>EmergencyDetector\<close>

definition detect_try :: "pylib \<Rightarrow> models \<Rightarrow> string \<Rightarrow> exn + bool \<times> json \<times> json" where
  "detect_try lib M message =
     (case detector_model M message of
        Inl e \<Rightarrow> Inl e
      | Inr text \<Rightarrow>
          (case clean_json_response text of
             Inl e \<Rightarrow> Inl e
           | Inr result_text \<Rightarrow>
               (case json_loads lib result_text of
                  Inl e \<Rightarrow> Inl e
                | Inr (JObj data) \<Rightarrow>
                    (let is_emergency = dict_get data ''is_emergency'' (JBool False);
                         emergency_type = dict_get data ''emergency_type'' (JStr ''none'');
                         confidence = dict_get data ''confidence'' (JStr ''low'')
                     in if truthy is_emergency \<and> confidence \<in> set [JStr ''high'', JStr ''medium'']
                        then Inr (True, emergency_type, confidence)
                        else Inr (False, JStr ''none'', confidence))
                | Inr _ \<Rightarrow> Inl AttributeError)))"

definition detect :: "pylib \<Rightarrow> models \<Rightarrow> string \<Rightarrow> bool \<times> json \<times> json" where
  "detect lib M message =
     (case detect_try lib M message of
        Inl e \<Rightarrow> (False, JStr ''none'', JStr ''low'')
      | Inr r \<Rightarrow> r)"

section \<open>SouleneAI\<close>

definition token :: string where
  "token = ''[EMERGENCY_NUMBER]''"

text \<open>The dash of the two fixed fallback lines, as the bytes the source file holds.\<close>

definition dash :: string where
  "dash = [CHR 0xC3, CHR 0xA2, CHR 0xE2, CHR 0x82, CHR 0xAC, CHR 0xE2, CHR 0x80, CHR 0x9D]"

definition urgent_line :: string where
  "urgent_line = ''Urgent'' @ dash @ ''call [EMERGENCY_NUMBER] now. Are you still there?''"

definition danger_indicators :: "string list" where
  "danger_indicators =
     [''going to kill myself'', ''kill myself'', ''i will kill'', ''i will end'',
      ''i am going to jump'', ''i am going to hurt myself'', ''have pills ready'',
      ''ready to end it'']"

definition exhaustion_indicators :: "string list" where
  "exhaustion_indicators =
     [''exhaust'', ''tired'', ''can't do this'', ''done'', ''wouldn't mind'', ''wish i was gone'']"

definition first_line_fragment :: "string \<Rightarrow> exn + string" where
  "first_line_fragment text =
     (case get (split_on [nl] text) 0 of
        Inl e \<Rightarrow> Inl e
      | Inr line \<Rightarrow> Inr (rstrip (slice_to 120 line)))"

definition rule_based_response :: "string \<Rightarrow> exn + string" where
  "rule_based_response message =
     (let text = strip message; lower_text = lower text in
      if \<exists>s \<in> set danger_indicators. sublist s lower_text then Inr urgent_line
      else if \<exists>s \<in> set exhaustion_indicators. sublist s lower_text then
        (case first_line_fragment text of
           Inl e \<Rightarrow> Inl e
         | Inr fragment \<Rightarrow>
             Inr ((if length fragment < 5 then ''You're overwhelmed'' else fragment)
                  @ ''... That sounds brutal. You're reaching out'' @ dash @ ''that matters.''))
      else
        (case first_line_fragment text of
           Inl e \<Rightarrow> Inl e
         | Inr fragment \<Rightarrow>
             Inr ((if fragment = [] then ''That sounds hard'' else fragment)
                  @ ''... I'm here with you. Tell me a bit more?'')))"

definition generate_response :: "models \<Rightarrow> string \<Rightarrow> turn list \<Rightarrow> exn + string" where
  "generate_response M message history =
     (case soulene_model M (format_history_for_gemini history) message of
        Inr text \<Rightarrow> Inr (strip text)
      | Inl e \<Rightarrow> rule_based_response message)"

section \<open>CounterAI\<close>

text \<open>
  The input of the refiner is built before the \<open>try\<close> block of \<open>refine\<close>: a failure of
  \<open>json.dumps\<close> there is a failure of \<open>refine\<close>.
\<close>

definition analysis_input ::
  "pylib \<Rightarrow> string \<Rightarrow> string \<Rightarrow> string \<Rightarrow> bool \<Rightarrow> (string \<times> json) list \<Rightarrow> exn + string" where
  "analysis_input lib conversation_context user_message draft_reply is_emergency pre_check_data =
     (case (if pre_check_data \<noteq> [] then json_dumps lib (JObj pre_check_data) else Inr ''None'') of
        Inl e \<Rightarrow> Inl e
      | Inr dumped \<Rightarrow>
          Inr ([nl] @ ''CONVERSATION CONTEXT (Last 10 messages):'' @ [nl] @ conversation_context
               @ [nl, nl]
               @ ''CURRENT USER MESSAGE:'' @ [nl] @ user_message @ [nl, nl]
               @ ''DRAFT REPLY FROM SOULENE:'' @ [nl] @ draft_reply @ [nl, nl]
               @ ''IS THIS AN EMERGENCY SITUATION: '' @ (if is_emergency then ''True'' else ''False'')
               @ [nl, nl]
               @ ''PRE-CHECK ANALYSIS:'' @ [nl] @ dumped @ [nl, nl]
               @ ''YOUR TASK:'' @ [nl]
               @ ''Analyze everything above and output ONLY the refined final reply that should be sent to the user.''
               @ [nl]
               @ ''Remember: Be human, be safe, be accurate. No explanations, just the refined reply.''
               @ [nl]))"

definition refine_try :: "models \<Rightarrow> string \<Rightarrow> exn + string" where
  "refine_try M input =
     (case counter_llm M input of
        Inl e \<Rightarrow> Inl e
      | Inr response_content \<Rightarrow>
          (let r0 = strip response_content in
           case (if sublist ''refined reply:'' (lower r0)
                 then (case get (split_once ''refined reply:'' r0) 1 of
                         Inl e \<Rightarrow> Inl e
                       | Inr rest \<Rightarrow> Inr (strip rest))
                 else Inr r0) of
             Inl e \<Rightarrow> Inl e
           | Inr r1 \<Rightarrow>
               Inr (if prefix [CHR 0x22] r1 \<and> suffix [CHR 0x22] r1 then slice 1 (- 1) r1 else r1)))"

definition refine ::
  "pylib \<Rightarrow> models \<Rightarrow> string \<Rightarrow> string \<Rightarrow> string \<Rightarrow> bool \<Rightarrow> (string \<times> json) list
     \<Rightarrow> exn + string" where
  "refine lib M conversation_context user_message draft_reply is_emergency pre_check_data =
     (case analysis_input lib conversation_context user_message draft_reply is_emergency
             pre_check_data of
        Inl e \<Rightarrow> Inl e
      | Inr input \<Rightarrow>
          (case refine_try M input of
             Inl e \<Rightarrow> Inr draft_reply
           | Inr refined_reply \<Rightarrow> Inr refined_reply))"

section \<open>EmergencyNumberService\<close>

definition search_prompt :: "string option \<Rightarrow> string" where
  \<open>search_prompt location =
     [nl] @ ''Search and find the CORRECT emergency numbers for: ''
     @ (case location of None \<Rightarrow> ''India'' | Some l \<Rightarrow> if l \<noteq> [] then l else ''India'') @ [nl, nl]
     @ ''Find:'' @ [nl]
     @ ''1. Police emergency number'' @ [nl]
     @ ''2. Ambulance/Medical emergency number  '' @ [nl]
     @ ''3. Suicide prevention hotline (if available)'' @ [nl, nl]
     @ ''Verify these are CURRENT and WORKING numbers (2025).'' @ [nl, nl]
     @ ''Output ONLY this JSON format (nothing else):'' @ [nl]
     @ ''{'' @ [nl]
     @ ''  "location": "country/city name",'' @ [nl]
     @ ''  "police": "number",'' @ [nl]
     @ ''  "medical": "number",'' @ [nl]
     @ ''  "suicide_hotline": "number or 'not available'",'' @ [nl]
     @ ''  "verified": true/false,'' @ [nl]
     @ ''  "source": "where you found this info"'' @ [nl]
     @ ''}'' @ [nl]\<close>

definition default_info :: "string option \<Rightarrow> (string \<times> json) list" where
  "default_info location =
     [(''location'', JStr (case location of None \<Rightarrow> ''India'' | Some l \<Rightarrow> if l \<noteq> [] then l else ''India'')),
      (''police'', JStr ''100''),
      (''medical'', JStr ''102 or 108''),
      (''suicide_hotline'', JStr ''AASRA 9820466726''),
      (''verified'', JBool False),
      (''source'', JStr ''default'')]"

definition lookup_try :: "pylib \<Rightarrow> models \<Rightarrow> string option \<Rightarrow> exn + (string \<times> json) list" where
  "lookup_try lib M location =
     (case lookup_model M (search_prompt location) of
        Inl e \<Rightarrow> Inl e
      | Inr text \<Rightarrow>
          (case clean_json_response text of
             Inl e \<Rightarrow> Inl e
           | Inr result_text \<Rightarrow>
               (case json_loads lib result_text of
                  Inl e \<Rightarrow> Inl e
                | Inr (JObj emergency_info) \<Rightarrow> Inr emergency_info
                | Inr _ \<Rightarrow> Inl ValueError)))"

type_synonym info_cache = "string \<rightharpoonup> (string \<times> json) list"

definition get_emergency_info ::
  "pylib \<Rightarrow> models \<Rightarrow> info_cache \<Rightarrow> string option \<Rightarrow> (string \<times> json) list \<times> info_cache" where
  "get_emergency_info lib M cache location =
     (let cache_key = (case location of None \<Rightarrow> ''default'' | Some l \<Rightarrow> if l \<noteq> [] then l else ''default'')
      in case cache cache_key of
           Some info \<Rightarrow> (info, cache)
         | None \<Rightarrow>
             (case lookup_try lib M location of
                Inr emergency_info \<Rightarrow> (emergency_info, cache(cache_key \<mapsto> emergency_info))
              | Inl e \<Rightarrow> (default_info location, cache(cache_key \<mapsto> default_info location))))"

definition fmt :: "pylib \<Rightarrow> json \<Rightarrow> string" where
  "fmt lib v = (case v of JStr s \<Rightarrow> s | _ \<Rightarrow> py_str lib v)"

definition format_emergency_numbers :: "pylib \<Rightarrow> (string \<times> json) list \<Rightarrow> string" where
  "format_emergency_numbers lib info =
     (let medical = dict_get info ''medical'' JNull;
          police = dict_get info ''police'' JNull;
          suicide_hotline = dict_get info ''suicide_hotline'' (JStr []);
          parts =
            (if truthy medical then [fmt lib medical @ '' (ambulance)''] else [])
            @ (if truthy police then [fmt lib police @ '' (police)''] else [])
            @ (if truthy suicide_hotline \<and> suicide_hotline \<noteq> JStr ''not available''
               then [fmt lib suicide_hotline @ '' (crisis line)''] else [])
      in if parts = [] then ''112 (international emergency)'' else join '' or '' parts)"

section \<open>SouleneServer\<close>

definition MAX_HISTORY_LENGTH :: int where
  "MAX_HISTORY_LENGTH = 50"

definition CONTEXT_WINDOW_SIZE :: int where
  "CONTEXT_WINDOW_SIZE = 10"

text \<open>
  The state of the server: the history manager, the known locations and the cache of the
  emergency-number service. Session keys are the values a request can carry.
\<close>

record server =
  conversation_history :: "json conversation_history"
  user_locations :: "json \<rightharpoonup> string"
  service_cache :: info_cache

definition initial_server :: server where
  "initial_server =
     \<lparr>conversation_history = new_history MAX_HISTORY_LENGTH,
      user_locations = Map.empty,
      service_cache = Map.empty\<rparr>"

text \<open>
  The five objects the handler calls, each as the method the handler uses. A call either
  returns or raises; what the handler does in both cases is the handler's own code.
\<close>

record components =
  pre_check :: "string \<Rightarrow> string \<Rightarrow> exn + (string \<times> json) list"
  emergency_detector :: "string \<Rightarrow> exn + bool \<times> json \<times> json"
  emergency_service :: "info_cache \<Rightarrow> string option \<Rightarrow> exn + (string \<times> json) list \<times> info_cache"
  soulene_ai :: "string \<Rightarrow> turn list \<Rightarrow> exn + string"
  counter_ai :: "string \<Rightarrow> string \<Rightarrow> string \<Rightarrow> bool \<Rightarrow> (string \<times> json) list \<Rightarrow> exn + string"

text \<open>The components the server is built with.\<close>

definition components_of :: "pylib \<Rightarrow> models \<Rightarrow> components" where
  "components_of lib M =
     \<lparr>pre_check = (\<lambda>user_message recent_context. Inr (analyze lib M user_message recent_context)),
      emergency_detector = (\<lambda>message. Inr (detect lib M message)),
      emergency_service = (\<lambda>cache location. Inr (get_emergency_info lib M cache location)),
      soulene_ai = generate_response M,
      counter_ai = refine lib M\<rparr>"

text \<open>The calls a request makes on the pipeline stages, with their arguments, in order.\<close>

datatype call =
    CallAnalyze string string
  | CallDetect string
  | CallEmergencyInfo "string option"
  | CallGenerate string "turn list"
  | CallRefine string string string bool "(string \<times> json) list"
  | CallDetectLoop json string

datatype response = Response nat "(string \<times> json) list"

type_synonym outcome = "response \<times> server \<times> call list"

record request =
  get_json :: "json option"
  get_data :: string

definition crisis_reply :: string where
  "crisis_reply = ''I'm really worried about you right now. Can you reach out to someone who can help? Call emergency services or a crisis hotline.''"

definition loop_break_reply :: string where
  "loop_break_reply = ''Let's try something different. What's one thing you could do right now, just for the next five minutes?''"

definition internal_error :: response where
  "internal_error =
     Response 500
       [(''error'', JStr ''Internal server error''),
        (''message'', JStr ''Something went wrong. Please try again.'')]"

definition no_message :: response where
  "no_message = Response 400 [(''error'', JStr ''No message provided'')]"

definition blocked_response :: response where
  "blocked_response =
     Response 200
       [(''reply'', JStr crisis_reply),
        (''is_emergency'', JBool True),
        (''emergency_type'', JStr ''critical''),
        (''pre_check_intervention'', JBool True)]"

text \<open>Parsing of the request: the body, the stripped message and the session id.\<close>

definition request_data :: "pylib \<Rightarrow> request \<Rightarrow> json" where
  "request_data lib rq =
     (case get_json rq of
        Some (JObj kvs) \<Rightarrow> JObj kvs
      | _ \<Rightarrow>
          (if get_data rq = [] then JObj []
           else (case json_loads lib (get_data rq) of Inl e \<Rightarrow> JObj [] | Inr j \<Rightarrow> j)))"

definition parse_request :: "pylib \<Rightarrow> request \<Rightarrow> exn + string \<times> json" where
  "parse_request lib rq =
     (case request_data lib rq of
        JObj data \<Rightarrow>
          (let m = dict_get data ''message'' JNull;
               s = dict_get data ''session_id'' JNull;
               session_id = (if truthy s then s else JStr ''default'')
           in if truthy m
              then (case m of JStr text \<Rightarrow> Inr (strip text, session_id) | _ \<Rightarrow> Inl AttributeError)
              else Inr ([], session_id))
      | _ \<Rightarrow> Inl AttributeError)"

text \<open>
  A session id is used as a dictionary key: lists and objects are unhashable, and \<open>True\<close>
  is the key \<open>1\<close>.
\<close>

definition session_key :: "json \<Rightarrow> exn + json" where
  "session_key j =
     (case j of
        JArr xs \<Rightarrow> Inl TypeError
      | JObj kvs \<Rightarrow> Inl TypeError
      | JBool b \<Rightarrow> Inr (JInt (if b then 1 else 0))
      | _ \<Rightarrow> Inr j)"

text \<open>The replacement of the placeholder in the draft.\<close>

definition substitute_placeholder :: "string option \<Rightarrow> string \<Rightarrow> string" where
  "substitute_placeholder emergency_number draft_reply =
     (case emergency_number of
        None \<Rightarrow> draft_reply
      | Some number \<Rightarrow>
          if number \<noteq> [] \<and> sublist token draft_reply then replace_all token number draft_reply
          else draft_reply)"

text \<open>
  Steps 5 and 6: loop detection and control, the final reply and its append, then the
  response. The body of this response holds the assessment and the emergency type as the
  classifiers gave them, and \<open>jsonify\<close> is called on it inside the handler's \<open>try\<close>, after
  the append: when it raises, the request ends in the 500 response with the state as the
  append left it.
\<close>

definition loop_control ::
  "pylib \<Rightarrow> server \<Rightarrow> json \<Rightarrow> string \<Rightarrow> (string \<times> json) list \<Rightarrow> bool \<Rightarrow> json \<Rightarrow> string
     \<Rightarrow> call list \<Rightarrow> outcome" where
  "loop_control lib srv sid t_reply pre_check_data is_emergency emergency_type refined_reply calls =
     (let (is_loop, ch1) = detect_loop (conversation_history srv) sid refined_reply;
          final_reply = (if is_loop then loop_break_reply else refined_reply);
          ch2 = add_message ch1 sid ''assistant'' final_reply t_reply;
          body =
            [(''reply'', JStr final_reply),
             (''is_emergency'', JBool is_emergency),
             (''emergency_type'', emergency_type),
             (''pre_check_data'', JObj pre_check_data),
             (''loop_detected'', JBool is_loop)]
      in case jsonify lib body of
           None \<Rightarrow>
             (Response 200 body, srv\<lparr>conversation_history := ch2\<rparr>,
              calls @ [CallDetectLoop sid refined_reply])
         | Some e \<Rightarrow>
             (internal_error, srv\<lparr>conversation_history := ch2\<rparr>,
              calls @ [CallDetectLoop sid refined_reply]))"

text \<open>Steps 3 and 4: the draft, the placeholder, the refinement.\<close>

definition draft_and_refine ::
  "pylib \<Rightarrow> components \<Rightarrow> server \<Rightarrow> json \<Rightarrow> string \<Rightarrow> string \<Rightarrow> string \<Rightarrow> (string \<times> json) list
     \<Rightarrow> bool \<Rightarrow> json \<Rightarrow> string option \<Rightarrow> call list \<Rightarrow> outcome" where
  "draft_and_refine lib S srv sid user_message recent_context t_reply pre_check_data is_emergency
     emergency_type emergency_number calls =
     (let history = get_history (conversation_history srv) sid;
          calls3 = calls @ [CallGenerate user_message history]
      in case soulene_ai S user_message history of
           Inl e \<Rightarrow> (internal_error, srv, calls3)
         | Inr draft \<Rightarrow>
             (let draft_reply = substitute_placeholder emergency_number draft;
                  calls4 = calls3 @ [CallRefine recent_context user_message draft_reply is_emergency
                                       pre_check_data]
              in case counter_ai S recent_context user_message draft_reply is_emergency
                        pre_check_data of
                   Inl e \<Rightarrow> (internal_error, srv, calls4)
                 | Inr refined_reply \<Rightarrow>
                     loop_control lib srv sid t_reply pre_check_data is_emergency emergency_type
                       refined_reply calls4))"

text \<open>Step 2: emergency detection, and the location and numbers when there is an emergency.\<close>

definition emergency_detection ::
  "pylib \<Rightarrow> components \<Rightarrow> server \<Rightarrow> json \<Rightarrow> string \<Rightarrow> string \<Rightarrow> string \<Rightarrow> (string \<times> json) list
     \<Rightarrow> call list \<Rightarrow> outcome" where
  "emergency_detection lib S srv sid user_message recent_context t_reply pre_check_data calls =
     (let calls2 = calls @ [CallDetect user_message]
      in case emergency_detector S user_message of
           Inl e \<Rightarrow> (internal_error, srv, calls2)
         | Inr (is_emergency, emergency_type, confidence) \<Rightarrow>
             if is_emergency then
               (let known = (case user_locations srv sid of
                               None \<Rightarrow> None
                             | Some l \<Rightarrow> if l \<noteq> [] then Some l else None);
                    user_location =
                      (case known of
                         Some l \<Rightarrow> Some l
                       | None \<Rightarrow> detect_user_location (get_history (conversation_history srv) sid));
                    srv1 =
                      (case (known, user_location) of
                         (None, Some l) \<Rightarrow>
                           if l \<noteq> [] then srv\<lparr>user_locations := (user_locations srv)(sid \<mapsto> l)\<rparr>
                           else srv
                       | _ \<Rightarrow> srv);
                    calls2' = calls2 @ [CallEmergencyInfo user_location]
                in case emergency_service S (service_cache srv1) user_location of
                     Inl e \<Rightarrow> (internal_error, srv1, calls2')
                   | Inr (emergency_info, cache) \<Rightarrow>
                       draft_and_refine lib S (srv1\<lparr>service_cache := cache\<rparr>) sid user_message
                         recent_context t_reply pre_check_data is_emergency emergency_type
                         (Some (format_emergency_numbers lib emergency_info)) calls2')
             else
               draft_and_refine lib S srv sid user_message recent_context t_reply pre_check_data
                 is_emergency emergency_type None calls2)"

text \<open>
  The handler of \<open>POST /chat\<close>. \<open>t_user\<close> and \<open>t_reply\<close> are the readings of the clock
  at the two appends. Every exception ends in the handler's \<open>except\<close> clause, with the
  state as it is at that point. The log line after the pre-check reads \<open>risk_level\<close> and
  \<open>risk_type\<close> of the assessment by index, so it raises when one is missing. The bodies
  of the 400, the blocked and the 500 response are fixed dictionaries of strings and
  booleans, which \<open>jsonify\<close> serialises.
\<close>

definition chat_with :: "pylib \<Rightarrow> components \<Rightarrow> server \<Rightarrow> request \<Rightarrow> string \<Rightarrow> string \<Rightarrow> outcome" where
  "chat_with lib S srv rq t_user t_reply =
     (case parse_request lib rq of
        Inl e \<Rightarrow> (internal_error, srv, [])
      | Inr (user_message, session_id) \<Rightarrow>
          if user_message = [] then (no_message, srv, [])
          else
            (case session_key session_id of
               Inl e \<Rightarrow> (internal_error, srv, [])
             | Inr sid \<Rightarrow>
                 (let ch1 = add_message (conversation_history srv) sid ''user'' user_message t_user;
                      srv1 = srv\<lparr>conversation_history := ch1\<rparr>;
                      recent_context = get_recent_context ch1 sid CONTEXT_WINDOW_SIZE;
                      calls1 = [CallAnalyze user_message recent_context]
                  in case pre_check S user_message recent_context of
                       Inl e \<Rightarrow> (internal_error, srv1, calls1)
                     | Inr pre_check_data \<Rightarrow>
                         if map_of pre_check_data ''risk_level'' = None
                            \<or> map_of pre_check_data ''risk_type'' = None
                         then (internal_error, srv1, calls1)
                         else if truthy (dict_get pre_check_data ''block_response'' (JBool False))
                         then
                           (blocked_response,
                            srv1\<lparr>conversation_history :=
                                    add_message ch1 sid ''assistant'' crisis_reply t_reply\<rparr>,
                            calls1)
                         else
                           emergency_detection lib S srv1 sid user_message recent_context t_reply
                             pre_check_data calls1)))"

definition chat :: "pylib \<Rightarrow> models \<Rightarrow> server \<Rightarrow> request \<Rightarrow> string \<Rightarrow> string \<Rightarrow> outcome" where
  "chat lib M = chat_with lib (components_of lib M)"

section \<open>Notions used in the statements\<close>

text \<open>
  A turn on which a loop was declared, seen from the state \<open>srv\<close> in which the loop guard
  ran: the tracker is unchanged, the reply is the pattern-breaking text, the last call is
  the loop guard's and it returned true, and every next candidate with a grounding keyword
  makes it return true again.
\<close>

definition looping :: "server \<Rightarrow> json \<Rightarrow> (string \<times> json) list \<Rightarrow> server \<Rightarrow> call list \<Rightarrow> bool" where
  "looping srv sid body srv' calls \<longleftrightarrow>
     loop_tracker (conversation_history srv') = loop_tracker (conversation_history srv)
     \<and> map_of body ''reply'' = Some (JStr loop_break_reply)
     \<and> (\<exists>refined. last calls = CallDetectLoop sid refined
            \<and> fst (detect_loop (conversation_history srv) sid refined))
     \<and> (\<forall>next_reply. has_grounding next_reply \<longrightarrow>
            fst (detect_loop (conversation_history srv') sid next_reply))"



text \<open>
  What a call of the refiner in the trace says about the turn that made it: its draft is
  the drafter's reply after the substitution with the emergency number \<open>en\<close> of the turn,
  and when the refiner returns, the outcome of the request is that of the loop control on
  the refined reply.
\<close>

definition no_refine :: "call list \<Rightarrow> bool" where
  "no_refine calls \<longleftrightarrow> (\<forall>c m d e p. CallRefine c m d e p \<notin> set calls)"

definition refiner_input ::
  "pylib \<Rightarrow> components \<Rightarrow> json \<Rightarrow> string \<Rightarrow> outcome \<Rightarrow> string \<Rightarrow> string \<Rightarrow> string \<Rightarrow> bool
     \<Rightarrow> (string \<times> json) list \<Rightarrow> string option \<Rightarrow> bool" where
  "refiner_input lib S sid t out c m d e p en \<longleftrightarrow>
     (\<exists>hist draft. soulene_ai S m hist = Inr draft \<and> d = substitute_placeholder en draft)
     \<and> (\<forall>refined. counter_ai S c m d e p = Inr refined \<longrightarrow>
           (\<exists>srv2 et calls4. out = loop_control lib srv2 sid t p e et refined calls4))"

section \<open>Example capabilities and inputs\<close>

text \<open>A request with a message and nothing else; it belongs to the session \<open>default\<close>.\<close>

definition one_message :: "string \<Rightarrow> request" where
  "one_message text = \<lparr>get_json = Some (JObj [(''message'', JStr text)]), get_data = []\<rparr>"

text \<open>
  Libraries: one whose parser accepts the text \<open>[1]\<close> only, one whose parser returns a
  given value, and one whose parser returns an assessment that blocks the response.
\<close>

definition failing_lib :: pylib where
  "failing_lib =
     \<lparr>json_loads = (\<lambda>s. if s = ''[1]'' then Inr (JArr [JInt 1]) else Inl JSONDecodeError),
      json_dumps = (\<lambda>j. Inr []),
      py_str = (\<lambda>j. []),
      jsonify = (\<lambda>body. None)\<rparr>"

definition lib_parsing :: "json \<Rightarrow> pylib" where
  "lib_parsing j =
     \<lparr>json_loads = (\<lambda>s. Inr j),
      json_dumps = (\<lambda>j. Inr []),
      py_str = (\<lambda>j. []),
      jsonify = (\<lambda>body. None)\<rparr>"

definition blocking_lib :: pylib where
  "blocking_lib = lib_parsing (JObj [(''risk_level'', JStr ''critical''), (''block_response'', JBool True)])"








text \<open>
  Models: classifiers answering a given text while the other models are down; every model
  down; only the drafter up, answering a given text.
\<close>

definition models_answering :: "string \<Rightarrow> models" where
  "models_answering text =
     \<lparr>pre_check_model = (\<lambda>p. if text = ''timeout'' then Inl (CapabilityFailure text) else Inr text),
      detector_model = (\<lambda>p. Inr text),
      soulene_model = (\<lambda>h p. Inl (CapabilityFailure ''down'')),
      counter_llm = (\<lambda>p. Inl (CapabilityFailure ''down'')),
      lookup_model = (\<lambda>p. Inl (CapabilityFailure ''down''))\<rparr>"

definition all_down :: models where
  "all_down =
     \<lparr>pre_check_model = (\<lambda>p. Inl (CapabilityFailure ''down'')),
      detector_model = (\<lambda>p. Inl (CapabilityFailure ''down'')),
      soulene_model = (\<lambda>h p. Inl (CapabilityFailure ''down'')),
      counter_llm = (\<lambda>p. Inl (CapabilityFailure ''down'')),
      lookup_model = (\<lambda>p. Inl (CapabilityFailure ''down''))\<rparr>"

definition drafting_only :: "string \<Rightarrow> models" where
  "drafting_only text =
     \<lparr>pre_check_model = (\<lambda>p. Inl (CapabilityFailure ''down'')),
      detector_model = (\<lambda>p. Inl (CapabilityFailure ''down'')),
      soulene_model = (\<lambda>h p. Inr text),
      counter_llm = (\<lambda>p. Inl (CapabilityFailure ''down'')),
      lookup_model = (\<lambda>p. Inl (CapabilityFailure ''down''))\<rparr>"

text \<open>
  A lookup that answers a record whose medical number is the token itself, with a detector
  that reports an emergency and a drafter that uses the token.
\<close>

definition token_lib :: pylib where
  "token_lib =
     \<lparr>json_loads = (\<lambda>s.
        if s = ''{e}'' then Inr (JObj [(''is_emergency'', JBool True), (''confidence'', JStr ''high'')])
        else if s = ''{n}'' then Inr (JObj [(''medical'', JStr ''[EMERGENCY_NUMBER]'')])
        else Inl JSONDecodeError),
      json_dumps = (\<lambda>j. Inr []),
      py_str = (\<lambda>j. []),
      jsonify = (\<lambda>body. None)\<rparr>"

definition token_models :: models where
  "token_models =
     \<lparr>pre_check_model = (\<lambda>p. Inl (CapabilityFailure ''down'')),
      detector_model = (\<lambda>p. Inr ''{e}''),
      soulene_model = (\<lambda>h p. Inr ''Call [EMERGENCY_NUMBER]''),
      counter_llm = (\<lambda>p. Inl (CapabilityFailure ''down'')),
      lookup_model = (\<lambda>p. Inr ''{n}'')\<rparr>"

text \<open>
  The server after two turns of the session \<open>default\<close> whose replies have a grounding
  keyword, and the context of its next turn.
\<close>

definition grounding_turn :: "server \<Rightarrow> server" where
  "grounding_turn srv =
     fst (snd (chat failing_lib (drafting_only ''Try to breathe slowly'') srv (one_message ''help'')
                 ''t0'' ''t1''))"

definition grounded_server :: server where
  "grounded_server = grounding_turn (grounding_turn initial_server)"

definition grounded_context :: string where
  "grounded_context =
     ''User: help'' @ [nl] @ ''Soulene: Try to breathe slowly'' @ [nl]
     @ ''User: help'' @ [nl] @ ''Soulene: Try to breathe slowly'' @ [nl]
     @ ''User: help'' @ [nl]"

text \<open>Stages that answer the same whatever they are asked.\<close>

definition constant_stages :: "bool \<Rightarrow> (string \<times> json) list \<Rightarrow> string \<Rightarrow> components" where
  "constant_stages is_emergency info draft =
     \<lparr>pre_check = (\<lambda>user_message recent_context. Inr safe_default),
      emergency_detector = (\<lambda>message. Inr (is_emergency, JStr ''medical'', JStr ''high'')),
      emergency_service = (\<lambda>cache location. Inr (info, cache)),
      soulene_ai = (\<lambda>message history. Inr draft),
      counter_ai = (\<lambda>context user_message draft_reply is_emergency pre_check_data. Inr draft_reply)\<rparr>"

section \<open>Properties of ConversationHistory\<close>

lemma slice_from_neg: "0 < m \<Longrightarrow> slice_from (- m) xs = newest (nat m) xs"
  by (auto simp: slice_from_def py_index_def newest_def max_def nat_diff_distrib')

lemma slice_from_zero: "slice_from 0 xs = xs"
  by (simp add: slice_from_def py_index_def)

lemma slice_from_last3: "slice_from (- 3) xs = newest 3 xs"
  using slice_from_neg[of 3 xs] by simp

lemma slice_from_last5: "slice_from (- 5) xs = newest 5 xs"
  using slice_from_neg[of 5 xs] by simp

lemma newest_all: "length xs \<le> n \<Longrightarrow> newest n xs = xs"
  by (simp add: newest_def)

lemma length_newest: "length (newest n xs) = min n (length xs)"
  by (auto simp: newest_def)

lemma newest_append_new: "length ys \<ge> n \<Longrightarrow> newest n (xs @ ys) = newest n ys"
  by (simp add: newest_def)

lemma get_history_add_message:
  assumes "0 < max_length ch"
  shows "get_history (add_message ch sid r c ts) sid =
         newest (nat (max_length ch))
           (get_history ch sid @ [\<lparr>role = r, content = c, timestamp = ts\<rparr>])"
  using assms
  by (auto simp: add_message_def get_history_def Let_def slice_from_neg newest_all
           split: option.splits)

lemma max_length_add_message: "max_length (add_message ch sid r c ts) = max_length ch"
  by (simp add: add_message_def Let_def)

lemma loop_tracker_add_message: "loop_tracker (add_message ch sid r c ts) = loop_tracker ch"
  by (simp add: add_message_def Let_def)

lemma get_history_add_all:
  assumes "0 < max_length ch" and "length (get_history ch sid) \<le> nat (max_length ch)"
  shows "get_history (add_all ch sid ms) sid =
         newest (nat (max_length ch)) (get_history ch sid @ map mk_turn ms)"
  using assms
proof (induction ms arbitrary: ch)
  case Nil
  then show ?case by (simp add: newest_all)
next
  case (Cons m ms)
  obtain r c ts where m: "m = (r, c, ts)" by (cases m)
  let ?ch = "add_message ch sid r c ts"
  have h: "get_history ?ch sid = newest (nat (max_length ch)) (get_history ch sid @ [mk_turn m])"
    using Cons.prems(1) by (simp add: get_history_add_message m mk_turn_def)
  have "get_history (add_all ?ch sid ms) sid =
        newest (nat (max_length ?ch)) (get_history ?ch sid @ map mk_turn ms)"
    by (rule Cons.IH) (use Cons.prems h in \<open>auto simp: length_newest max_length_add_message\<close>)
  also have "\<dots> = newest (nat (max_length ch)) (get_history ch sid @ map mk_turn (m # ms))"
    using Cons.prems(1)
    by (cases "nat (max_length ch) \<le> length (get_history ch sid)")
       (auto simp: h newest_def Suc_diff_le ac_simps max_length_add_message)
  finally show ?case by (simp add: m)
qed

text \<open>
  For a bound of at least one, after \<open>N\<close> appends to a fresh session the history is the
  newest \<open>min N max_length\<close> appended turns in their order, and it never exceeds the bound.
\<close>

lemma add_all_fresh:
  assumes "0 < max_length ch" and "histories ch sid = None"
  shows "get_history (add_all ch sid ms) sid = newest (nat (max_length ch)) (map mk_turn ms)"
    and "length (get_history (add_all ch sid ms) sid) = min (length ms) (nat (max_length ch))"
proof -
  have e: "get_history ch sid = []"
    using assms(2) by (simp add: get_history_def)
  show "get_history (add_all ch sid ms) sid = newest (nat (max_length ch)) (map mk_turn ms)"
    using get_history_add_all[of ch sid ms] assms(1) e by simp
  then show "length (get_history (add_all ch sid ms) sid) = min (length ms) (nat (max_length ch))"
    by (simp add: length_newest min.commute)
qed

lemma add_message_bounded:
  assumes "0 < max_length ch"
  shows "int (length (get_history (add_message ch sid r c ts) sid)) \<le> max_length ch"
  using assms by (simp add: get_history_add_message length_newest)

text \<open>
  C2. With \<open>max_length = 0\<close> the trimming slice \<open>h[-0:]\<close> is the whole list: after one
  append to a fresh session the history holds one turn, where the bound asks for none.
\<close>

theorem add_message_zero_bound_keeps_turn:
  "get_history (add_message (new_history 0) ''s'' ''user'' ''hi'' ''t0'') ''s''
     = [\<lparr>role = ''user'', content = ''hi'', timestamp = ''t0''\<rparr>]
   \<and> max_length (add_message (new_history 0) ''s'' ''user'' ''hi'' ''t0'') = 0
   \<and> length (get_history (add_all (new_history 0) ''s''
        [(''user'', ''a'', ''t0''), (''assistant'', ''b'', ''t1''), (''user'', ''c'', ''t2'')]) ''s'') = 3"
  by (simp add: add_message_def new_history_def get_history_def slice_from_zero)

lemma get_recent_context_newest:
  assumes "0 < limit"
  shows "get_recent_context ch sid limit =
         concat (map context_line (newest (nat limit) (get_history ch sid)))"
  using assms by (auto simp: get_recent_context_def Let_def slice_from_neg newest_all)

text \<open>
  C8. With \<open>limit = 0\<close> the slice \<open>history[-0:]\<close> is the whole history: the context holds
  every turn of the session, where the newest zero turns are none.
\<close>

theorem get_recent_context_zero_limit:
  "get_recent_context
     (add_all (new_history 50) ''s'' [(''user'', ''hi'', ''t0''), (''assistant'', ''yo'', ''t1'')])
     ''s'' 0
   = ''User: hi'' @ [CHR 0x0A] @ ''Soulene: yo'' @ [CHR 0x0A]"
  by (simp add: get_recent_context_def add_message_def new_history_def get_history_def
        slice_from_zero context_line_def)

section \<open>Properties of the loop guard\<close>

lemma detect_loop_result:
  "fst (detect_loop ch sid r) =
     (has_grounding r \<and> 2 \<le> length (filter has_grounding (slice_from (- 3) (window ch sid))))"
  by (simp add: detect_loop_def window_def Let_def)

lemma detect_loop_true_frame:
  assumes "fst (detect_loop ch sid r)"
  shows "snd (detect_loop ch sid r) = ch"
proof -
  from assms have c: "2 \<le> length (filter has_grounding (slice_from (- 3) (window ch sid)))"
    and g: "has_grounding r"
    by (simp_all add: detect_loop_result)
  from c have "window ch sid \<noteq> []"
    by (auto simp: slice_from_def)
  then obtain w where w: "loop_tracker ch sid = Some w"
    by (auto simp: window_def split: option.splits)
  then have "(loop_tracker ch)(sid \<mapsto> w) = loop_tracker ch"
    by (simp add: map_upd_triv)
  with w c g show ?thesis
    by (simp add: detect_loop_def window_def Let_def)
qed

lemma detect_loop_false_tracker:
  assumes "\<not> fst (detect_loop ch sid r)"
  shows "loop_tracker (snd (detect_loop ch sid r)) =
         (loop_tracker ch)(sid \<mapsto> newest 5 (window ch sid @ [r]))"
  using assms
  by (auto simp: detect_loop_def window_def Let_def slice_from_last5 newest_all split: if_splits)

lemma detect_loop_histories: "histories (snd (detect_loop ch sid r)) = histories ch"
  by (simp add: detect_loop_def Let_def)


lemma detect_loop_false_window:
  assumes "\<not> fst (detect_loop ch sid r)"
  shows "window (snd (detect_loop ch sid r)) sid = newest 5 (window ch sid @ [r])"
  using detect_loop_false_tracker[OF assms] by (simp add: window_def)

lemma newest_snoc: "newest (Suc n) (xs @ [x]) = newest n xs @ [x]"
  by (cases "n \<le> length xs") (auto simp: newest_def Suc_diff_le)

lemma newest_snoc2: "newest (Suc (Suc n)) (xs @ [x, y]) = newest n xs @ [x, y]"
  using newest_snoc[of "Suc n" "xs @ [x]" y] newest_snoc[of n xs x] by simp

lemma grounding_count_last_two:
  assumes "has_grounding a" and "has_grounding b"
  shows "2 \<le> length (filter has_grounding (newest 3 (newest 5 (newest 5 (w @ [a]) @ [b]))))"
proof -
  have "newest 3 (newest 5 (newest 5 (w @ [a]) @ [b]))
        = newest 1 (newest 3 (newest 4 w)) @ [a, b]"
    by (simp add: eval_nat_numeral newest_snoc newest_snoc2)
  then show ?thesis using assms by simp
qed

lemma third_grounding_reply_loops:
  assumes "has_grounding r1" and "has_grounding r2" and "has_grounding r3"
  shows "fst (detect_loop (snd (detect_loop (snd (detect_loop ch sid r1)) sid r2)) sid r3)"
proof (cases "fst (detect_loop ch sid r1)")
  case True
  then have c1: "snd (detect_loop ch sid r1) = ch"
    by (rule detect_loop_true_frame)
  from True have cnt: "2 \<le> length (filter has_grounding (slice_from (- 3) (window ch sid)))"
    by (simp add: detect_loop_result)
  then have t2: "fst (detect_loop ch sid r2)"
    using assms(2) by (simp add: detect_loop_result)
  then have "snd (detect_loop ch sid r2) = ch"
    by (rule detect_loop_true_frame)
  with c1 cnt assms(3) show ?thesis
    by (simp add: detect_loop_result)
next
  case False
  let ?c1 = "snd (detect_loop ch sid r1)"
  have w1: "window ?c1 sid = newest 5 (window ch sid @ [r1])"
    using False by (rule detect_loop_false_window)
  show ?thesis
  proof (cases "fst (detect_loop ?c1 sid r2)")
    case True
    then have "snd (detect_loop ?c1 sid r2) = ?c1"
      by (rule detect_loop_true_frame)
    moreover from True
    have "2 \<le> length (filter has_grounding (slice_from (- 3) (window ?c1 sid)))"
      by (simp add: detect_loop_result)
    ultimately show ?thesis
      using assms(3) by (simp add: detect_loop_result)
  next
    case f2: False
    then have "window (snd (detect_loop ?c1 sid r2)) sid = newest 5 (window ?c1 sid @ [r2])"
      by (rule detect_loop_false_window)
    with w1 grounding_count_last_two[OF assms(1,2), of "window ch sid"] assms(3)
    show ?thesis
      by (simp add: detect_loop_result slice_from_last3)
  qed
qed

lemma two_replies_retained:
  assumes "window ch sid = []"
  shows "\<not> fst (detect_loop ch sid r1)"
    and "\<not> fst (detect_loop (snd (detect_loop ch sid r1)) sid r2)"
    and "window (snd (detect_loop (snd (detect_loop ch sid r1)) sid r2)) sid = [r1, r2]"
proof -
  show f1: "\<not> fst (detect_loop ch sid r1)"
    using assms by (simp add: detect_loop_result slice_from_def)
  then have w1: "window (snd (detect_loop ch sid r1)) sid = [r1]"
    using assms by (simp add: detect_loop_false_window newest_def)
  then show f2: "\<not> fst (detect_loop (snd (detect_loop ch sid r1)) sid r2)"
    by (simp add: detect_loop_result slice_from_last3 newest_def)
  then show "window (snd (detect_loop (snd (detect_loop ch sid r1)) sid r2)) sid = [r1, r2]"
    using w1 by (simp add: detect_loop_false_window newest_def)
qed

text \<open>
  C3. \<open>detect_loop\<close> returns true exactly when the candidate has a grounding keyword and at
  least two of the last three entries of the session's window have one. When it returns
  true nothing changes; when it returns false the candidate is appended and the window is
  cut to its newest five entries, the rest of the state staying as it was. Three
  grounding replies in a row make the third call return true; from an empty window two
  calls both return false and leave exactly the two replies in the window.
\<close>

theorem detect_loop_spec:
  "fst (detect_loop ch sid r) =
     (has_grounding r \<and> 2 \<le> length (filter has_grounding (slice_from (- 3) (window ch sid))))
   \<and> (fst (detect_loop ch sid r) \<longrightarrow> snd (detect_loop ch sid r) = ch)
   \<and> (\<not> fst (detect_loop ch sid r) \<longrightarrow>
        window (snd (detect_loop ch sid r)) sid = newest 5 (window ch sid @ [r])
        \<and> length (window (snd (detect_loop ch sid r)) sid) \<le> 5
        \<and> (\<forall>k. k \<noteq> sid \<longrightarrow>
              loop_tracker (snd (detect_loop ch sid r)) k = loop_tracker ch k)
        \<and> histories (snd (detect_loop ch sid r)) = histories ch)
   \<and> (has_grounding r \<and> has_grounding r2 \<and> has_grounding r3 \<longrightarrow>
        fst (detect_loop (snd (detect_loop (snd (detect_loop ch sid r)) sid r2)) sid r3))
   \<and> (window ch sid = [] \<longrightarrow>
        \<not> fst (detect_loop ch sid r)
        \<and> \<not> fst (detect_loop (snd (detect_loop ch sid r)) sid r2)
        \<and> window (snd (detect_loop (snd (detect_loop ch sid r)) sid r2)) sid = [r, r2])"
proof (intro conjI impI)
  show "fst (detect_loop ch sid r) =
     (has_grounding r \<and> 2 \<le> length (filter has_grounding (slice_from (- 3) (window ch sid))))"
    by (rule detect_loop_result)
next
  assume "fst (detect_loop ch sid r)"
  then show "snd (detect_loop ch sid r) = ch" by (rule detect_loop_true_frame)
next
  assume f: "\<not> fst (detect_loop ch sid r)"
  then show w: "window (snd (detect_loop ch sid r)) sid = newest 5 (window ch sid @ [r])"
    by (rule detect_loop_false_window)
  show "length (window (snd (detect_loop ch sid r)) sid) \<le> 5"
    by (simp add: w length_newest)
  show "\<forall>k. k \<noteq> sid \<longrightarrow> loop_tracker (snd (detect_loop ch sid r)) k = loop_tracker ch k"
    by (simp add: detect_loop_false_tracker[OF f])
  show "histories (snd (detect_loop ch sid r)) = histories ch"
    by (rule detect_loop_histories)
next
  assume "has_grounding r \<and> has_grounding r2 \<and> has_grounding r3"
  then show "fst (detect_loop (snd (detect_loop (snd (detect_loop ch sid r)) sid r2)) sid r3)"
    by (simp add: third_grounding_reply_loops)
next
  assume e: "window ch sid = []"
  show "\<not> fst (detect_loop ch sid r)"
    and "\<not> fst (detect_loop (snd (detect_loop ch sid r)) sid r2)"
    and "window (snd (detect_loop (snd (detect_loop ch sid r)) sid r2)) sid = [r, r2]"
    using two_replies_retained[OF e] by simp_all
qed

lemma has_grounding_examples:
  "has_grounding ''Try to breathe slowly and ground yourself''"
  "has_grounding ''Focus on your breathing and stay present''"
  "has_grounding ''Feel your feet''"
  by (simp_all add: has_grounding_def grounding_keywords_def lower_def lower_char_def sublist_code)

theorem detect_loop_spec_witness:
  "has_grounding ''Try to breathe slowly and ground yourself''
   \<and> has_grounding ''Focus on your breathing and stay present''
   \<and> has_grounding ''Feel your feet''
   \<and> window (new_history 50) ''s'' = []
   \<and> \<not> fst (detect_loop (new_history 50) ''s'' ''Try to breathe slowly and ground yourself'')
   \<and> window (snd (detect_loop (snd (detect_loop (new_history 50) ''s''
          ''Try to breathe slowly and ground yourself'')) ''s''
          ''Focus on your breathing and stay present'')) ''s''
       = [''Try to breathe slowly and ground yourself'', ''Focus on your breathing and stay present'']
   \<and> fst (detect_loop (snd (detect_loop (snd (detect_loop (new_history 50) ''s''
          ''Try to breathe slowly and ground yourself'')) ''s''
          ''Focus on your breathing and stay present'')) ''s'' ''Feel your feet'')
   \<and> snd (detect_loop (snd (detect_loop (snd (detect_loop (new_history 50) ''s''
          ''Try to breathe slowly and ground yourself'')) ''s''
          ''Focus on your breathing and stay present'')) ''s'' ''Feel your feet'')
       = snd (detect_loop (snd (detect_loop (new_history 50) ''s''
          ''Try to breathe slowly and ground yourself'')) ''s''
          ''Focus on your breathing and stay present'')"
proof -
  have e: "window (new_history 50) ''s'' = []"
    by (simp add: window_def new_history_def)
  note a = detect_loop_spec[of "new_history 50" "''s''"
      "''Try to breathe slowly and ground yourself''"
      "''Focus on your breathing and stay present''" "''Feel your feet''"]
  note b = detect_loop_spec[of "snd (detect_loop (snd (detect_loop (new_history 50) ''s''
          ''Try to breathe slowly and ground yourself'')) ''s''
          ''Focus on your breathing and stay present'')" "''s''" "''Feel your feet''"]
  from a b e has_grounding_examples show ?thesis
    by blast
qed

section \<open>Properties of the classifiers\<close>

text \<open>
  C4. Whenever the classifier call of the pre-screen raises, or the cleaning or the parsing of
  its output raises, or the parsed value is not a dictionary, \<open>analyze\<close> returns the
  all-safe default assessment; it returns a value in every case.
\<close>

theorem analyze_fails_open:
  "(pre_check_model M (pre_check_prompt user_message recent_context) = Inl e
      \<longrightarrow> analyze lib M user_message recent_context = safe_default)
   \<and> (pre_check_model M (pre_check_prompt user_message recent_context) = Inr text
        \<and> clean_json_response text = Inl e
      \<longrightarrow> analyze lib M user_message recent_context = safe_default)
   \<and> (pre_check_model M (pre_check_prompt user_message recent_context) = Inr text
        \<and> clean_json_response text = Inr cleaned \<and> json_loads lib cleaned = Inl e
      \<longrightarrow> analyze lib M user_message recent_context = safe_default)
   \<and> (pre_check_model M (pre_check_prompt user_message recent_context) = Inr text
        \<and> clean_json_response text = Inr cleaned \<and> json_loads lib cleaned = Inr j
        \<and> (\<forall>result. j \<noteq> JObj result)
      \<longrightarrow> analyze lib M user_message recent_context = safe_default)
   \<and> (analyze_try lib M user_message recent_context = Inl e
      \<longrightarrow> analyze lib M user_message recent_context = safe_default)
   \<and> dict_get safe_default ''risk_level'' JNull = JStr ''none''
   \<and> dict_get safe_default ''risk_type'' JNull = JStr ''none''
   \<and> dict_get safe_default ''requires_intervention'' JNull = JBool False
   \<and> dict_get safe_default ''intervention_type'' JNull = JStr ''none''
   \<and> dict_get safe_default ''block_response'' JNull = JBool False"
proof (intro conjI impI)
  assume "pre_check_model M (pre_check_prompt user_message recent_context) = Inr text
        \<and> clean_json_response text = Inr cleaned \<and> json_loads lib cleaned = Inr j
        \<and> (\<forall>result. j \<noteq> JObj result)"
  then show "analyze lib M user_message recent_context = safe_default"
    by (cases j) (simp_all add: analyze_def analyze_try_def)
qed (simp_all add: analyze_def analyze_try_def safe_default_def dict_get_def)

lemma clean_examples:
  "clean_json_response ''not json'' = Inr ''not json''"
  "clean_json_response ''[1]'' = Inr ''[1]''"
  by code_simp+

theorem analyze_fails_open_witness:
  "pre_check_model (models_answering ''timeout'') (pre_check_prompt ''hi'' []) = Inl (CapabilityFailure ''timeout'')
   \<and> analyze failing_lib (models_answering ''timeout'') ''hi'' [] = safe_default
   \<and> json_loads failing_lib ''not json'' = Inl JSONDecodeError
   \<and> analyze failing_lib (models_answering ''not json'') ''hi'' [] = safe_default
   \<and> json_loads failing_lib ''[1]'' = Inr (JArr [JInt 1])
   \<and> analyze failing_lib (models_answering ''[1]'') ''hi'' [] = safe_default"
proof -
  have a: "pre_check_model (models_answering ''timeout'') (pre_check_prompt ''hi'' [])
           = Inl (CapabilityFailure ''timeout'')"
    by (simp add: models_answering_def)
  have b: "pre_check_model (models_answering ''not json'') (pre_check_prompt ''hi'' []) = Inr ''not json''"
    "json_loads failing_lib ''not json'' = Inl JSONDecodeError"
    by (simp_all add: models_answering_def failing_lib_def)
  have c: "pre_check_model (models_answering ''[1]'') (pre_check_prompt ''hi'' []) = Inr ''[1]''"
    "json_loads failing_lib ''[1]'' = Inr (JArr [JInt 1])"
    by (simp_all add: models_answering_def failing_lib_def)
  have 1: "analyze failing_lib (models_answering ''timeout'') ''hi'' [] = safe_default"
    using a analyze_fails_open[of "models_answering ''timeout''" "''hi''" "[]"
        "CapabilityFailure ''timeout''" failing_lib]
    by blast
  have 2: "analyze failing_lib (models_answering ''not json'') ''hi'' [] = safe_default"
    using b clean_examples(1) analyze_fails_open[of "models_answering ''not json''" "''hi''" "[]"
        JSONDecodeError failing_lib "''not json''" "''not json''"]
    by blast
  have 3: "analyze failing_lib (models_answering ''[1]'') ''hi'' [] = safe_default"
    using c clean_examples(2) analyze_fails_open[of "models_answering ''[1]''" "''hi''" "[]"
        JSONDecodeError failing_lib "''[1]''" "''[1]''" "JArr [JInt 1]"]
    by blast
  from a b(2) c(2) 1 2 3 show ?thesis by blast
qed

text \<open>
  C5. On a parsed classifier output, \<open>detect\<close> reports an emergency exactly when
  \<open>is_emergency\<close> is true and the confidence is \<open>high\<close> or \<open>medium\<close>. An output with
  \<open>is_emergency = true\<close> and confidence \<open>low\<close> gives \<open>(False, none, low)\<close>, the very result
  of an output with \<open>is_emergency = false\<close> and confidence \<open>low\<close>, and of a failed call.
\<close>

theorem detect_trusts_high_or_medium:
  assumes "detector_model M message = Inr text"
    and "clean_json_response text = Inr cleaned"
    and "json_loads lib cleaned = Inr (JObj data)"
  shows "(fst (detect lib M message) \<longleftrightarrow>
            truthy (dict_get data ''is_emergency'' (JBool False))
            \<and> (dict_get data ''confidence'' (JStr ''low'') = JStr ''high''
               \<or> dict_get data ''confidence'' (JStr ''low'') = JStr ''medium''))
       \<and> (fst (detect lib M message) \<longrightarrow>
            detect lib M message =
              (True, dict_get data ''emergency_type'' (JStr ''none''),
               dict_get data ''confidence'' (JStr ''low'')))
       \<and> (\<not> fst (detect lib M message) \<longrightarrow>
            detect lib M message = (False, JStr ''none'', dict_get data ''confidence'' (JStr ''low'')))
       \<and> (map_of data ''is_emergency'' = Some (JBool True)
            \<and> map_of data ''confidence'' = Some (JStr ''low'')
          \<longrightarrow> detect lib M message = (False, JStr ''none'', JStr ''low''))
       \<and> (map_of data ''is_emergency'' = Some (JBool False)
            \<and> map_of data ''confidence'' = Some (JStr ''low'')
          \<longrightarrow> detect lib M message = (False, JStr ''none'', JStr ''low''))"
  using assms by (auto simp: detect_def detect_try_def Let_def dict_get_def)

theorem detect_trusts_high_or_medium_witness:
  "detector_model (models_answering ''{}'') ''help'' = Inr ''{}''
   \<and> clean_json_response ''{}'' = Inr ''{}''
   \<and> json_loads (lib_parsing (JObj [(''is_emergency'', JBool True), (''confidence'', JStr ''low'')])) ''{}''
       = Inr (JObj [(''is_emergency'', JBool True), (''confidence'', JStr ''low'')])
   \<and> detect (lib_parsing (JObj [(''is_emergency'', JBool True), (''confidence'', JStr ''low'')]))
        (models_answering ''{}'') ''help'' = (False, JStr ''none'', JStr ''low'')
   \<and> detect (lib_parsing (JObj [(''is_emergency'', JBool False), (''confidence'', JStr ''low'')]))
        (models_answering ''{}'') ''help'' = (False, JStr ''none'', JStr ''low'')
   \<and> fst (detect (lib_parsing (JObj [(''is_emergency'', JBool True), (''emergency_type'', JStr ''suicide''),
         (''confidence'', JStr ''high'')])) (models_answering ''{}'') ''help'')"
proof -
  have m: "detector_model (models_answering ''{}'') ''help'' = Inr ''{}''"
    by (simp add: models_answering_def)
  have c: "clean_json_response ''{}'' = Inr ''{}''"
    by code_simp
  have l: "json_loads (lib_parsing j) ''{}'' = Inr j" for j
    by (simp add: lib_parsing_def)
  have 1: "detect (lib_parsing (JObj [(''is_emergency'', JBool True), (''confidence'', JStr ''low'')]))
        (models_answering ''{}'') ''help'' = (False, JStr ''none'', JStr ''low'')"
    using detect_trusts_high_or_medium[OF m c l[of "JObj [(''is_emergency'', JBool True), (''confidence'', JStr ''low'')]"]]
    by simp
  have 2: "detect (lib_parsing (JObj [(''is_emergency'', JBool False), (''confidence'', JStr ''low'')]))
        (models_answering ''{}'') ''help'' = (False, JStr ''none'', JStr ''low'')"
    using detect_trusts_high_or_medium[OF m c l[of "JObj [(''is_emergency'', JBool False), (''confidence'', JStr ''low'')]"]]
    by simp
  have 3: "fst (detect (lib_parsing (JObj [(''is_emergency'', JBool True), (''emergency_type'', JStr ''suicide''),
         (''confidence'', JStr ''high'')])) (models_answering ''{}'') ''help'')"
    using detect_trusts_high_or_medium[OF m c l[of "JObj [(''is_emergency'', JBool True), (''emergency_type'', JStr ''suicide''),
         (''confidence'', JStr ''high'')]"]]
    by (simp add: dict_get_def)
  from m c l 1 2 3 show ?thesis by blast
qed

section \<open>Properties of the request handler\<close>

lemma internal_error_status: "internal_error = Response code body \<Longrightarrow> code = 500"
  by (simp add: internal_error_def)

text \<open>
  C1. When the assessment of the pre-screen has a true \<open>block_response\<close>, the handler
  answers 200 with the fixed crisis-referral reply, \<open>is_emergency = true\<close>,
  \<open>emergency_type = "critical"\<close> and \<open>pre_check_intervention = true\<close>; the only stage it
  has called is the pre-screen, and the only change of the state is the two turns appended
  to the session's history.
\<close>

theorem pre_check_block_short_circuits:
  assumes "parse_request lib rq = Inr (user_message, session_id)"
    and "user_message \<noteq> []"
    and "session_key session_id = Inr sid"
    and "pre_check S user_message
           (get_recent_context
              (add_message (conversation_history srv) sid ''user'' user_message t_user)
              sid CONTEXT_WINDOW_SIZE) = Inr pre_check_data"
    and "map_of pre_check_data ''risk_level'' \<noteq> None"
    and "map_of pre_check_data ''risk_type'' \<noteq> None"
    and "truthy (dict_get pre_check_data ''block_response'' (JBool False))"
  shows "chat_with lib S srv rq t_user t_reply =
           (Response 200
              [(''reply'', JStr crisis_reply),
               (''is_emergency'', JBool True),
               (''emergency_type'', JStr ''critical''),
               (''pre_check_intervention'', JBool True)],
            srv\<lparr>conversation_history :=
                  add_message
                    (add_message (conversation_history srv) sid ''user'' user_message t_user)
                    sid ''assistant'' crisis_reply t_reply\<rparr>,
            [CallAnalyze user_message
               (get_recent_context
                  (add_message (conversation_history srv) sid ''user'' user_message t_user)
                  sid CONTEXT_WINDOW_SIZE)])"
  using assms by (auto simp: chat_with_def Let_def blocked_response_def)

lemma strip_help: "strip ''help'' = ''help''"
  by code_simp

lemma parse_one_message_help:
  "parse_request lib (one_message ''help'') = Inr (''help'', JStr ''default'')"
  by (simp add: parse_request_def request_data_def one_message_def dict_get_def strip_help)

lemma analyze_blocking:
  "analyze blocking_lib (models_answering ''{}'') m c =
     [(''risk_level'', JStr ''critical''), (''risk_type'', JStr ''none''),
      (''requires_intervention'', JBool False), (''intervention_type'', JStr ''none''),
      (''context_notes'', JStr []), (''block_response'', JBool True)]"
proof -
  have c: "clean_json_response ''{}'' = Inr ''{}''"
    by code_simp
  show ?thesis
    by (simp add: analyze_def analyze_try_def models_answering_def blocking_lib_def
          lib_parsing_def c dict_get_def)
qed

theorem pre_check_block_short_circuits_witness:
  "parse_request blocking_lib (one_message ''help'') = Inr (''help'', JStr ''default'')
   \<and> session_key (JStr ''default'') = Inr (JStr ''default'')
   \<and> truthy (dict_get (analyze blocking_lib (models_answering ''{}'') ''help''
        (get_recent_context
           (add_message (conversation_history initial_server) (JStr ''default'') ''user'' ''help'' ''t0'')
           (JStr ''default'') CONTEXT_WINDOW_SIZE)) ''block_response'' (JBool False))
   \<and> fst (chat blocking_lib (models_answering ''{}'') initial_server (one_message ''help'') ''t0'' ''t1'')
       = Response 200
              [(''reply'', JStr crisis_reply),
               (''is_emergency'', JBool True),
               (''emergency_type'', JStr ''critical''),
               (''pre_check_intervention'', JBool True)]
   \<and> length (snd (snd (chat blocking_lib (models_answering ''{}'') initial_server
         (one_message ''help'') ''t0'' ''t1''))) = 1"
proof -
  let ?S = "components_of blocking_lib (models_answering ''{}'')"
  let ?ctx = "get_recent_context
           (add_message (conversation_history initial_server) (JStr ''default'') ''user'' ''help'' ''t0'')
           (JStr ''default'') CONTEXT_WINDOW_SIZE"
  have p: "parse_request blocking_lib (one_message ''help'') = Inr (''help'', JStr ''default'')"
    by (rule parse_one_message_help)
  have n: "''help'' \<noteq> []" by simp
  have k: "session_key (JStr ''default'') = Inr (JStr ''default'')"
    by (simp add: session_key_def)
  have a: "pre_check ?S ''help'' ?ctx = Inr (analyze blocking_lib (models_answering ''{}'') ''help'' ?ctx)"
    by (simp add: components_of_def)
  have r1: "map_of (analyze blocking_lib (models_answering ''{}'') ''help'' ?ctx) ''risk_level'' \<noteq> None"
    and r2: "map_of (analyze blocking_lib (models_answering ''{}'') ''help'' ?ctx) ''risk_type'' \<noteq> None"
    and b: "truthy (dict_get (analyze blocking_lib (models_answering ''{}'') ''help'' ?ctx)
              ''block_response'' (JBool False))"
    by (simp_all add: analyze_blocking dict_get_def)
  from pre_check_block_short_circuits[OF p n k a r1 r2 b, of "''t1''"] p k b
  show ?thesis
    by (simp add: chat_def)
qed

section \<open>Requests that end in the 500 response\<close>




subsection \<open>A request whose response body cannot be encoded\<close>


















section \<open>Failures of the server's own components\<close>

lemma split_on_nonempty: "split_on sep s \<noteq> []"
proof (induction sep s rule: split_on.induct)
  case (1 sep s)
  show ?case
    by (subst split_on.simps) (auto split: list.splits)
qed

lemma first_line_fragment_returns: "\<exists>fragment. first_line_fragment s = Inr fragment"
  using split_on_nonempty[of "[nl]" s]
  by (simp add: first_line_fragment_def get_def)

lemma rule_based_response_returns: "\<exists>reply. rule_based_response message = Inr reply"
proof -
  obtain fragment where "first_line_fragment (strip message) = Inr fragment"
    using first_line_fragment_returns by blast
  then show ?thesis
    by (simp add: rule_based_response_def Let_def)
qed

lemma generate_response_returns: "\<exists>reply. generate_response M message history = Inr reply"
  using rule_based_response_returns[of message]
  by (auto simp: generate_response_def split: sum.splits)

lemma analyze_keys:
  "map_of (analyze lib M user_message recent_context) ''risk_level'' \<noteq> None"
  "map_of (analyze lib M user_message recent_context) ''risk_type'' \<noteq> None"
  by (auto simp: analyze_def analyze_try_def safe_default_def split: sum.splits json.splits)

lemma refine_raises:
  "refine lib M c m d e p = Inl x \<longleftrightarrow> p \<noteq> [] \<and> json_dumps lib (JObj p) = Inl x"
  by (auto simp: refine_def analysis_input_def split: sum.splits if_splits)

text \<open>
  With the components the server is built with, a request ends in the 500 response after
  its first stage only when \<open>json.dumps\<close> raises on the assessment inside \<open>refine\<close>, or
  when \<open>jsonify\<close> raises on the body of the final response.
\<close>

lemma loop_control_error_jsonify:
  assumes "loop_control lib srv sid t pc ie et r calls = (internal_error, srv', calls')"
  shows "\<exists>body x. jsonify lib body = Some x"
  using assms
  by (auto simp: loop_control_def Let_def internal_error_def split: prod.splits option.splits)

lemma draft_and_refine_own_error:
  assumes "draft_and_refine lib (components_of lib M) srv sid msg ctx t pc ie et en calls
             = (internal_error, srv', calls')"
  shows "(\<exists>x. json_dumps lib (JObj pc) = Inl x) \<or> (\<exists>body x. jsonify lib body = Some x)"
proof -
  obtain draft where "generate_response M msg (get_history (conversation_history srv) sid) = Inr draft"
    using generate_response_returns by blast
  with assms show ?thesis
    by (auto simp: draft_and_refine_def Let_def components_of_def refine_raises
             split: sum.splits dest!: loop_control_error_jsonify)
qed

lemma emergency_detection_own_error:
  assumes "emergency_detection lib (components_of lib M) srv sid msg ctx t pc calls
             = (internal_error, srv', calls')"
  shows "(\<exists>x. json_dumps lib (JObj pc) = Inl x) \<or> (\<exists>body x. jsonify lib body = Some x)"
proof -
  have d: "emergency_detector (components_of lib M) msg = Inr (detect lib M msg)"
    and s: "emergency_service (components_of lib M) cache loc
              = Inr (get_emergency_info lib M cache loc)" for cache loc
    by (simp_all add: components_of_def)
  from assms show ?thesis
    by (auto simp: emergency_detection_def Let_def d s
             split: prod.splits if_splits option.splits
             dest!: draft_and_refine_own_error)
qed

lemma chat_own_error:
  assumes "chat lib M srv rq t_user t_reply = (internal_error, srv', calls)"
    and "calls \<noteq> []"
  shows "(\<exists>pc x. json_dumps lib (JObj pc) = Inl x) \<or> (\<exists>body x. jsonify lib body = Some x)"
proof -
  have p: "pre_check (components_of lib M) m c = Inr (analyze lib M m c)" for m c
    by (simp add: components_of_def)
  from assms show ?thesis
    by (auto simp: chat_def chat_with_def Let_def p analyze_keys blocked_response_def
                   internal_error_def
             split: sum.splits prod.splits if_splits
             dest!: emergency_detection_own_error[unfolded internal_error_def])
qed

lemma window_add_message: "window (add_message ch sid r c ts) k = window ch k"
  by (simp add: window_def loop_tracker_add_message)

lemma loop_control_loop:
  assumes "loop_control lib srv sid t pc ie et r calls = (Response code body, srv', calls')"
    and "map_of body ''loop_detected'' = Some (JBool True)"
  shows "looping srv sid body srv' calls'"
proof -
  obtain is_loop ch1 where d: "detect_loop (conversation_history srv) sid r = (is_loop, ch1)"
    by (cases "detect_loop (conversation_history srv) sid r")
  from assms d have l: "is_loop"
    by (auto simp: loop_control_def Let_def internal_error_def split: option.splits)
  with d have f: "fst (detect_loop (conversation_history srv) sid r)" by simp
  then have "snd (detect_loop (conversation_history srv) sid r) = conversation_history srv"
    by (rule detect_loop_true_frame)
  with d have ch1: "ch1 = conversation_history srv" by simp
  from assms d l ch1
  have s: "conversation_history srv'
            = add_message (conversation_history srv) sid ''assistant'' loop_break_reply t"
    and b: "map_of body ''reply'' = Some (JStr loop_break_reply)"
    and c: "calls' = calls @ [CallDetectLoop sid r]"
    by (auto simp: loop_control_def Let_def internal_error_def split: option.splits)
  from f have cnt: "2 \<le> length (filter has_grounding
                      (slice_from (- 3) (window (conversation_history srv) sid)))"
    by (simp add: detect_loop_result)
  have "\<forall>next_reply. has_grounding next_reply \<longrightarrow>
            fst (detect_loop (conversation_history srv') sid next_reply)"
    using cnt by (simp add: detect_loop_result s window_add_message)
  with s b c f show ?thesis
    by (auto simp: looping_def loop_tracker_add_message)
qed

lemma draft_and_refine_loop:
  assumes "draft_and_refine lib S srv sid msg ctx t pc ie et en calls = (Response code body, srv', calls')"
    and "map_of body ''loop_detected'' = Some (JBool True)"
  shows "looping srv sid body srv' calls'"
  using assms
  by (auto simp: draft_and_refine_def Let_def internal_error_def
           split: sum.splits intro: loop_control_loop)

lemma looping_other_fields:
  "looping (srv\<lparr>service_cache := Y\<rparr>) sid body srv' calls = looping srv sid body srv' calls"
  "looping (srv\<lparr>user_locations := X\<rparr>) sid body srv' calls = looping srv sid body srv' calls"
  "looping (srv\<lparr>user_locations := X, service_cache := Y\<rparr>) sid body srv' calls
     = looping srv sid body srv' calls"
  by (simp_all add: looping_def)

lemma emergency_detection_loop:
  assumes "emergency_detection lib S srv sid msg ctx t pc calls = (Response code body, srv', calls')"
    and "map_of body ''loop_detected'' = Some (JBool True)"
  shows "looping srv sid body srv' calls'"
  using assms
  by (auto simp: emergency_detection_def Let_def internal_error_def looping_other_fields
           split: sum.splits prod.splits if_splits option.splits
           dest!: draft_and_refine_loop)

text \<open>
  C9. On a turn whose response reports a detected loop, the loop tracker of the server is
  after the turn what it was before it: neither the refined reply nor the pattern-breaking
  reply that replaced it is in any window. So every next candidate with a grounding keyword
  makes \<open>detect_loop\<close> return true again, on the same window.
\<close>

theorem loop_turn_leaves_window:
  assumes "chat_with lib S srv rq t_user t_reply = (Response code body, srv', calls)"
    and "map_of body ''loop_detected'' = Some (JBool True)"
  shows "loop_tracker (conversation_history srv') = loop_tracker (conversation_history srv)
       \<and> map_of body ''reply'' = Some (JStr loop_break_reply)
       \<and> (\<exists>sid refined.
             last calls = CallDetectLoop sid refined
             \<and> window (conversation_history srv') sid = window (conversation_history srv) sid
             \<and> (\<forall>next_reply. has_grounding next_reply \<longrightarrow>
                   fst (detect_loop (conversation_history srv') sid next_reply)))"
proof (cases "parse_request lib rq")
  case (Inl e)
  with assms show ?thesis by (auto simp: chat_with_def internal_error_def)
next
  case (Inr p)
  obtain user_message session_id where p: "p = (user_message, session_id)" by (cases p)
  show ?thesis
  proof (cases "user_message = []")
    case True
    with assms Inr p show ?thesis
      by (auto simp: chat_with_def no_message_def)
  next
    case ne: False
    show ?thesis
    proof (cases "session_key session_id")
      case (Inl e)
      with assms Inr p ne show ?thesis
        by (auto simp: chat_with_def internal_error_def)
    next
      case k: (Inr sid)
      let ?srv1 = "srv\<lparr>conversation_history :=
                     add_message (conversation_history srv) sid ''user'' user_message t_user\<rparr>"
      have "looping ?srv1 sid body srv' calls"
        using assms Inr p k ne
        by (auto simp: chat_with_def Let_def blocked_response_def internal_error_def
                 split: sum.splits if_splits
                 dest!: emergency_detection_loop)
      then show ?thesis
        by (auto simp: looping_def loop_tracker_add_message window_def)
    qed
  qed
qed

lemma grounded_run_response:
  "fst (chat failing_lib (drafting_only ''Breathe. Call [EMERGENCY_NUMBER]'') grounded_server
     (one_message ''help'') ''t0'' ''t1'')
  = Response 200
      [(''reply'', JStr loop_break_reply),
       (''is_emergency'', JBool False),
       (''emergency_type'', JStr ''none''),
       (''pre_check_data'', JObj safe_default),
       (''loop_detected'', JBool True)]"
  by code_simp

theorem loop_turn_leaves_window_witness:
  "chat_with failing_lib (components_of failing_lib (drafting_only ''Breathe. Call [EMERGENCY_NUMBER]''))
       grounded_server (one_message ''help'') ''t0'' ''t1''
     = (Response 200
          [(''reply'', JStr loop_break_reply),
           (''is_emergency'', JBool False),
           (''emergency_type'', JStr ''none''),
           (''pre_check_data'', JObj safe_default),
           (''loop_detected'', JBool True)],
        snd (chat_with failing_lib
               (components_of failing_lib (drafting_only ''Breathe. Call [EMERGENCY_NUMBER]''))
               grounded_server (one_message ''help'') ''t0'' ''t1''))
   \<and> loop_tracker (conversation_history (fst (snd (chat_with failing_lib
          (components_of failing_lib (drafting_only ''Breathe. Call [EMERGENCY_NUMBER]''))
          grounded_server (one_message ''help'') ''t0'' ''t1''))))
       = loop_tracker (conversation_history grounded_server)"
proof -
  let ?out = "chat_with failing_lib
                (components_of failing_lib (drafting_only ''Breathe. Call [EMERGENCY_NUMBER]''))
                grounded_server (one_message ''help'') ''t0'' ''t1''"
  let ?body = "[(''reply'', JStr loop_break_reply),
           (''is_emergency'', JBool False),
           (''emergency_type'', JStr ''none''),
           (''pre_check_data'', JObj safe_default),
           (''loop_detected'', JBool True)]"
  have f: "fst ?out = Response 200 ?body"
    using grounded_run_response by (simp add: chat_def)
  have run: "?out = (Response 200 ?body, fst (snd ?out), snd (snd ?out))"
    using f by (metis prod.collapse)
  have l: "map_of ?body ''loop_detected'' = Some (JBool True)"
    by simp
  from loop_turn_leaves_window[OF run l] run show ?thesis
    by (metis prod.collapse)
qed

section \<open>Properties of the placeholder substitution\<close>

lemma replace_all_Nil: "old \<noteq> [] \<Longrightarrow> replace_all old new [] = []"
  by (simp add: replace_all.simps)

lemma replace_all_match:
  "old \<noteq> [] \<Longrightarrow> prefix old s \<Longrightarrow>
   replace_all old new s = new @ replace_all old new (drop (length old) s)"
  by (subst replace_all.simps) auto

lemma replace_all_step:
  "old \<noteq> [] \<Longrightarrow> \<not> prefix old (c # s) \<Longrightarrow>
   replace_all old new (c # s) = c # replace_all old new s"
  by (subst replace_all.simps) simp

lemma prefix_of_new:
  assumes "new \<noteq> []" and "last new \<notin> set old" and "last old \<notin> set new"
    and "suffix b old" and "b \<noteq> []"
  shows "\<not> prefix b (new @ x)"
proof
  assume "prefix b (new @ x)"
  then consider "prefix b new" | us where "b = new @ us"
    by (auto simp: prefix_append)
  then show False
  proof cases
    case 1
    from assms(4,5) have "last b = last old"
      by (auto simp: suffix_def)
    moreover have "last b \<in> set new"
      using 1 assms(5) by (metis last_in_set set_mono_prefix subsetD)
    ultimately show False using assms(3) by simp
  next
    case 2
    then have "last new \<in> set b"
      using assms(1) by simp
    moreover have "set b \<subseteq> set old"
      using assms(4) by (rule set_mono_suffix)
    ultimately show False using assms(2) by auto
  qed
qed

lemma prefix_through_replace:
  assumes "old \<noteq> []" and "new \<noteq> []" and "last new \<notin> set old" and "last old \<notin> set new"
  shows "suffix b old \<Longrightarrow> prefix b (replace_all old new s) \<Longrightarrow> prefix b s"
proof (induction s arbitrary: b)
  case Nil
  then show ?case using assms(1) by (simp add: replace_all_Nil)
next
  case (Cons c s)
  show ?case
  proof (cases b)
    case Nil
    then show ?thesis by simp
  next
    case (Cons d b')
    show ?thesis
    proof (cases "prefix old (c # s)")
      case True
      then have "replace_all old new (c # s) = new @ replace_all old new (drop (length old) (c # s))"
        using assms(1) by (rule replace_all_match[rotated])
      with Cons.prems(2) prefix_of_new[OF assms(2,3,4) Cons.prems(1)] Cons
      show ?thesis by auto
    next
      case False
      then have "replace_all old new (c # s) = c # replace_all old new s"
        using assms(1) by (rule replace_all_step[rotated])
      with Cons.prems(2) Cons have "d = c" and "prefix b' (replace_all old new s)"
        by simp_all
      moreover have "suffix b' old"
        using Cons.prems(1) Cons by (auto dest: suffix_ConsD)
      ultimately show ?thesis
        using Cons.IH[of b'] Cons by simp
    qed
  qed
qed

lemma no_prefix_after_replace:
  assumes "old \<noteq> []" and "new \<noteq> []" and "last new \<notin> set old" and "last old \<notin> set new"
  shows "\<not> prefix old (replace_all old new s)"
proof (cases s)
  case Nil
  then show ?thesis using assms(1) by (simp add: replace_all_Nil)
next
  case (Cons c s')
  show ?thesis
  proof (cases "prefix old s")
    case True
    then have "replace_all old new s = new @ replace_all old new (drop (length old) s)"
      using assms(1) by (rule replace_all_match[rotated])
    then show ?thesis
      using prefix_of_new[OF assms(2,3,4) suffix_order.order_refl assms(1)] by simp
  next
    case False
    then have "replace_all old new s = c # replace_all old new s'"
      using assms(1) Cons by (simp add: replace_all_step)
    moreover obtain h body where old: "old = h # body"
      using assms(1) by (cases old) auto
    ultimately show ?thesis
      using False Cons prefix_through_replace[OF assms, of body s']
      by (auto simp: suffix_Cons)
  qed
qed

lemma no_occurrence_after_replace:
  assumes "old \<noteq> []" and "new \<noteq> []" and "last new \<notin> set old" and "last old \<notin> set new"
  shows "\<not> sublist old (replace_all old new s)"
proof (induction s rule: length_induct)
  case (1 s)
  show ?case
  proof (cases s)
    case Nil
    then show ?thesis using assms(1) by (simp add: replace_all_Nil)
  next
    case (Cons c s')
    show ?thesis
    proof (cases "prefix old s")
      case True
      let ?rest = "replace_all old new (drop (length old) s)"
      have out: "replace_all old new s = new @ ?rest"
        using assms(1) True by (rule replace_all_match)
      have ih: "\<not> sublist old ?rest"
        using 1 assms(1) Cons by simp
      have a: "\<not> sublist old new"
        using assms(1,4) by (metis last_in_set set_mono_sublist subsetD)
      have b: "\<not> (\<exists>xs1 xs2. old = xs1 @ xs2 \<and> suffix xs1 new \<and> prefix xs2 ?rest)"
      proof
        assume "\<exists>xs1 xs2. old = xs1 @ xs2 \<and> suffix xs1 new \<and> prefix xs2 ?rest"
        then obtain xs1 xs2 where x: "old = xs1 @ xs2" "suffix xs1 new" "prefix xs2 ?rest"
          by blast
        show False
        proof (cases "xs1 = []")
          case True
          with x no_prefix_after_replace[OF assms, of "drop (length old) s"] show False by simp
        next
          case False
          with x(2) have "last xs1 = last new"
            by (auto simp: suffix_def)
          with False x(1) assms(3) show False
            by (metis Un_iff last_in_set set_append)
        qed
      qed
      from ih a b show ?thesis
        by (simp add: out sublist_append)
    next
      case False
      then have out: "replace_all old new s = c # replace_all old new s'"
        using assms(1) Cons by (simp add: replace_all_step)
      have "\<not> sublist old (replace_all old new s')"
        using 1 Cons by simp
      moreover have "\<not> prefix old (replace_all old new s)"
        by (rule no_prefix_after_replace[OF assms])
      ultimately show ?thesis
        using out by (metis sublist_Cons_right)
    qed
  qed
qed

lemma join_last:
  assumes "ps \<noteq> []" and "\<forall>p \<in> set ps. p \<noteq> [] \<and> last p = c"
  shows "join sep ps \<noteq> [] \<and> last (join sep ps) = c"
  using assms by (induction sep ps rule: join.induct) auto

lemma format_emergency_numbers_shape:
  "format_emergency_numbers lib info \<noteq> []
   \<and> last (format_emergency_numbers lib info) = CHR '')''"
proof -
  let ?parts = "(if truthy (dict_get info ''medical'' JNull)
                 then [fmt lib (dict_get info ''medical'' JNull) @ '' (ambulance)''] else [])
            @ (if truthy (dict_get info ''police'' JNull)
               then [fmt lib (dict_get info ''police'' JNull) @ '' (police)''] else [])
            @ (if truthy (dict_get info ''suicide_hotline'' (JStr []))
                  \<and> dict_get info ''suicide_hotline'' (JStr []) \<noteq> JStr ''not available''
               then [fmt lib (dict_get info ''suicide_hotline'' (JStr [])) @ '' (crisis line)'']
               else [])"
  have p: "\<forall>p \<in> set ?parts. p \<noteq> [] \<and> last p = CHR '')''"
    by auto
  show ?thesis
  proof (cases "?parts = []")
    case True
    then show ?thesis
      by (simp add: format_emergency_numbers_def Let_def)
  next
    case False
    from join_last[OF False p, of "'' or ''"] False show ?thesis
      by (simp add: format_emergency_numbers_def Let_def)
  qed
qed

lemma substituted_draft_has_no_token:
  assumes "CHR '']'' \<notin> set (format_emergency_numbers lib info)"
  shows "\<not> sublist token
            (substitute_placeholder (Some (format_emergency_numbers lib info)) draft)"
proof (cases "sublist token draft")
  case True
  have "\<not> sublist token (replace_all token (format_emergency_numbers lib info) draft)"
    using assms format_emergency_numbers_shape[of lib info]
    by (intro no_occurrence_after_replace) (auto simp: token_def)
  with True show ?thesis
    using format_emergency_numbers_shape[of lib info]
    by (simp add: substitute_placeholder_def)
next
  case False
  then show ?thesis by (simp add: substitute_placeholder_def)
qed

section \<open>The call of the refiner\<close>

lemma loop_control_trace:
  "snd (snd (loop_control lib srv sid t pc ie et r calls)) = calls @ [CallDetectLoop sid r]"
  by (simp add: loop_control_def Let_def split: prod.splits option.splits)

lemma draft_and_refine_refine_call:
  assumes "draft_and_refine lib S srv sid msg ctx t pc ie et en calls = out"
    and "CallRefine c m d e p \<in> set (snd (snd out))"
    and "no_refine calls"
  shows "e = ie \<and> refiner_input lib S sid t out c m d e p en"
proof (cases "soulene_ai S msg (get_history (conversation_history srv) sid)")
  case (Inl x)
  with assms show ?thesis
    by (auto simp: draft_and_refine_def Let_def no_refine_def)
next
  case (Inr draft)
  let ?d = "substitute_placeholder en draft"
  let ?calls4 = "calls @ [CallGenerate msg (get_history (conversation_history srv) sid),
                          CallRefine ctx msg ?d ie pc]"
  have tr: "snd (snd out) = ?calls4 \<or> (\<exists>r. snd (snd out) = ?calls4 @ [CallDetectLoop sid r])"
    using assms(1) Inr
    by (auto simp: draft_and_refine_def Let_def loop_control_trace split: sum.splits)
  with assms(2,3) have eq: "c = ctx" "m = msg" "d = ?d" "e = ie" "p = pc"
    by (auto simp: no_refine_def)
  have "\<forall>refined. counter_ai S ctx msg ?d ie pc = Inr refined \<longrightarrow>
          out = loop_control lib srv sid t pc ie et refined ?calls4"
    using assms(1) Inr by (auto simp: draft_and_refine_def Let_def)
  with Inr eq show ?thesis
    by (auto simp: refiner_input_def)
qed

lemma emergency_detection_refine_call:
  assumes "emergency_detection lib S srv sid msg ctx t pc calls = out"
    and "CallRefine c m d e p \<in> set (snd (snd out))"
    and "no_refine calls"
  shows "\<exists>en. refiner_input lib S sid t out c m d e p en
           \<and> (if e then \<exists>info cache loc cache'.
                          emergency_service S cache loc = Inr (info, cache')
                          \<and> en = Some (format_emergency_numbers lib info)
              else en = None)"
proof (cases "emergency_detector S msg")
  case (Inl x)
  with assms show ?thesis
    by (auto simp: emergency_detection_def Let_def no_refine_def)
next
  case (Inr r)
  obtain ie et conf where r: "r = (ie, et, conf)" by (cases r)
  have n2: "no_refine (calls @ [CallDetect msg])"
    and n3: "no_refine (calls @ [CallDetect msg, CallEmergencyInfo loc])" for loc
    using assms(3) by (auto simp: no_refine_def)
  show ?thesis
  proof (cases ie)
    case False
    with assms(1) Inr r
    have "draft_and_refine lib S srv sid msg ctx t pc False et None (calls @ [CallDetect msg]) = out"
      by (simp add: emergency_detection_def Let_def)
    from draft_and_refine_refine_call[OF this assms(2) n2] show ?thesis
      by auto
  next
    case True
    let ?known = "case user_locations srv sid of
                    None \<Rightarrow> None | Some l \<Rightarrow> if l \<noteq> [] then Some l else None"
    let ?loc = "case ?known of
                  Some l \<Rightarrow> Some l
                | None \<Rightarrow> detect_user_location (get_history (conversation_history srv) sid)"
    let ?srv1 = "case (?known, ?loc) of
                   (None, Some l) \<Rightarrow>
                     if l \<noteq> [] then srv\<lparr>user_locations := (user_locations srv)(sid \<mapsto> l)\<rparr>
                     else srv
                 | _ \<Rightarrow> srv"
    show ?thesis
    proof (cases "emergency_service S (service_cache ?srv1) ?loc")
      case (Inl x)
      with assms True Inr r show ?thesis
        by (auto simp: emergency_detection_def Let_def no_refine_def)
    next
      case svc: (Inr res)
      obtain info cache where res: "res = (info, cache)" by (cases res)
      from assms(1) True Inr r svc res
      have "draft_and_refine lib S (?srv1\<lparr>service_cache := cache\<rparr>) sid msg ctx t pc True et
              (Some (format_emergency_numbers lib info))
              (calls @ [CallDetect msg, CallEmergencyInfo ?loc]) = out"
        by (simp add: emergency_detection_def Let_def)
      note dr = draft_and_refine_refine_call[OF this assms(2) n3]
      from dr have e: "e" by simp
      from dr
      have ri: "refiner_input lib S sid t out c m d e p (Some (format_emergency_numbers lib info))"
        by (rule conjunct2)
      have "\<exists>info' cache0 loc cache'.
              emergency_service S cache0 loc = Inr (info', cache')
              \<and> Some (format_emergency_numbers lib info) = Some (format_emergency_numbers lib info')"
        using svc res by blast
      with e ri show ?thesis
        by (intro exI[of _ "Some (format_emergency_numbers lib info)"]) simp
    qed
  qed
qed

lemma chat_with_refine_call:
  assumes "chat_with lib S srv rq t_user t_reply = out"
    and "CallRefine c m d e p \<in> set (snd (snd out))"
  shows "\<exists>sid en. refiner_input lib S sid t_reply out c m d e p en
           \<and> (if e then \<exists>info cache loc cache'.
                          emergency_service S cache loc = Inr (info, cache')
                          \<and> en = Some (format_emergency_numbers lib info)
              else en = None)"
proof (cases "parse_request lib rq")
  case (Inl x)
  with assms show ?thesis by (auto simp: chat_with_def)
next
  case (Inr q)
  obtain user_message session_id where q: "q = (user_message, session_id)" by (cases q)
  show ?thesis
  proof (cases "user_message = []")
    case True
    with assms Inr q show ?thesis by (auto simp: chat_with_def)
  next
    case ne: False
    show ?thesis
    proof (cases "session_key session_id")
      case (Inl x)
      with assms Inr q ne show ?thesis by (auto simp: chat_with_def)
    next
      case k: (Inr sid)
      let ?ch1 = "add_message (conversation_history srv) sid ''user'' user_message t_user"
      let ?ctx = "get_recent_context ?ch1 sid CONTEXT_WINDOW_SIZE"
      have n1: "no_refine [CallAnalyze user_message ?ctx]"
        by (simp add: no_refine_def)
      show ?thesis
      proof (cases "pre_check S user_message ?ctx")
        case (Inl x)
        with assms Inr q ne k show ?thesis by (auto simp: chat_with_def Let_def)
      next
        case pc: (Inr pre_check_data)
        have o: "out = (if map_of pre_check_data ''risk_level'' = None
                           \<or> map_of pre_check_data ''risk_type'' = None
                        then (internal_error, srv\<lparr>conversation_history := ?ch1\<rparr>,
                              [CallAnalyze user_message ?ctx])
                        else if truthy (dict_get pre_check_data ''block_response'' (JBool False))
                        then (blocked_response,
                              srv\<lparr>conversation_history :=
                                    add_message ?ch1 sid ''assistant'' crisis_reply t_reply\<rparr>,
                              [CallAnalyze user_message ?ctx])
                        else emergency_detection lib S (srv\<lparr>conversation_history := ?ch1\<rparr>) sid
                               user_message ?ctx t_reply pre_check_data
                               [CallAnalyze user_message ?ctx])"
          using assms(1)[symmetric] Inr q ne k pc by (simp add: chat_with_def Let_def)
        show ?thesis
        proof (cases "map_of pre_check_data ''risk_level'' = None
                      \<or> map_of pre_check_data ''risk_type'' = None
                      \<or> truthy (dict_get pre_check_data ''block_response'' (JBool False))")
          case True
          with o have "snd (snd out) = [CallAnalyze user_message ?ctx]"
            by auto
          with assms(2) show ?thesis by simp
        next
          case False
          with o
          have "emergency_detection lib S (srv\<lparr>conversation_history := ?ch1\<rparr>) sid user_message
                  ?ctx t_reply pre_check_data [CallAnalyze user_message ?ctx] = out"
            by auto
          from emergency_detection_refine_call[OF this assms(2) n1] show ?thesis
            by blast
        qed
      qed
    qed
  qed
qed

lemma loop_control_reply:
  assumes "loop_control lib srv sid t pc ie et r calls = (Response code body, srv', calls')"
  shows "map_of body ''loop_detected'' = Some (JBool False) \<longrightarrow> map_of body ''reply'' = Some (JStr r)"
    and "code = 200 \<and> \<not> has_grounding r \<longrightarrow> map_of body ''reply'' = Some (JStr r)"
  using assms
  by (auto simp: loop_control_def Let_def detect_loop_def internal_error_def
           split: prod.splits if_splits option.splits)

section \<open>Properties of the placeholder on a turn\<close>

text \<open>
  C7, as stated, fails: the contact string comes from the lookup and can itself hold the
  token. With a lookup answering \<open>medical = "[EMERGENCY_NUMBER]"\<close>, the refiner receives
  \<open>Call [EMERGENCY_NUMBER] (ambulance)\<close>, and that is the reply the user gets.
\<close>

theorem token_in_contact_counterexample:
  "snd (snd (chat token_lib token_models initial_server (one_message ''help'') ''t0'' ''t1''))
     = [CallAnalyze ''help'' (''User: help'' @ [nl]),
        CallDetect ''help'',
        CallEmergencyInfo None,
        CallGenerate ''help'' [\<lparr>role = ''user'', content = ''help'', timestamp = ''t0''\<rparr>],
        CallRefine (''User: help'' @ [nl]) ''help'' ''Call [EMERGENCY_NUMBER] (ambulance)'' True
          safe_default,
        CallDetectLoop (JStr ''default'') ''Call [EMERGENCY_NUMBER] (ambulance)'']
   \<and> sublist token ''Call [EMERGENCY_NUMBER] (ambulance)''"
  by code_simp

text \<open>
  C7, amended. On every turn whose refiner call carries \<open>is_emergency = true\<close>, the draft
  passed to the refiner is the drafter's reply with every occurrence of the token replaced
  by the formatted contact string (\<open>str.replace\<close>), and it holds no occurrence of the
  token whenever the contact string has no \<open>]\<close> in it.
\<close>

theorem placeholder_replaced_before_refiner:
  assumes "chat_with lib S srv rq t_user t_reply = (resp, srv', calls)"
    and "CallRefine ctx msg d True pc \<in> set calls"
  shows "\<exists>info cache loc cache' hist draft.
           emergency_service S cache loc = Inr (info, cache')
           \<and> soulene_ai S msg hist = Inr draft
           \<and> d = (if sublist token draft
                  then replace_all token (format_emergency_numbers lib info) draft
                  else draft)
           \<and> (CHR '']'' \<notin> set (format_emergency_numbers lib info) \<longrightarrow> \<not> sublist token d)"
proof -
  from assms(2) have "CallRefine ctx msg d True pc \<in> set (snd (snd (resp, srv', calls)))"
    by simp
  from chat_with_refine_call[OF assms(1) this]
  obtain sid info cache loc cache' where
    ri: "refiner_input lib S sid t_reply (resp, srv', calls) ctx msg d True pc
           (Some (format_emergency_numbers lib info))"
    and svc: "emergency_service S cache loc = Inr (info, cache')"
    by auto
  from ri obtain hist draft where dr: "soulene_ai S msg hist = Inr draft"
    and d: "d = substitute_placeholder (Some (format_emergency_numbers lib info)) draft"
    by (auto simp: refiner_input_def)
  have "d = (if sublist token draft
             then replace_all token (format_emergency_numbers lib info) draft else draft)"
    using d format_emergency_numbers_shape[of lib info]
    by (simp add: substitute_placeholder_def)
  moreover have "CHR '']'' \<notin> set (format_emergency_numbers lib info) \<longrightarrow> \<not> sublist token d"
    using d substituted_draft_has_no_token[of lib info draft] by simp
  ultimately show ?thesis
    using svc dr by blast
qed

lemma constant_run_trace:
  "snd (snd (chat_with failing_lib
      (constant_stages True (default_info None) ''Urgent: call [EMERGENCY_NUMBER] now.'')
      initial_server (one_message ''help'') ''t0'' ''t1''))
   = [CallAnalyze ''help'' (''User: help'' @ [nl]),
      CallDetect ''help'',
      CallEmergencyInfo None,
      CallGenerate ''help'' [\<lparr>role = ''user'', content = ''help'', timestamp = ''t0''\<rparr>],
      CallRefine (''User: help'' @ [nl]) ''help''
        ''Urgent: call 102 or 108 (ambulance) or 100 (police) or AASRA 9820466726 (crisis line) now.''
        True safe_default,
      CallDetectLoop (JStr ''default'')
        ''Urgent: call 102 or 108 (ambulance) or 100 (police) or AASRA 9820466726 (crisis line) now.'']"
  by code_simp

lemma default_numbers:
  "format_emergency_numbers failing_lib (default_info None)
     = ''102 or 108 (ambulance) or 100 (police) or AASRA 9820466726 (crisis line)''"
  by code_simp

theorem placeholder_replaced_before_refiner_witness:
  "CallRefine (''User: help'' @ [nl]) ''help''
      ''Urgent: call 102 or 108 (ambulance) or 100 (police) or AASRA 9820466726 (crisis line) now.''
      True safe_default
     \<in> set (snd (snd (chat_with failing_lib
          (constant_stages True (default_info None) ''Urgent: call [EMERGENCY_NUMBER] now.'')
          initial_server (one_message ''help'') ''t0'' ''t1'')))
   \<and> CHR '']'' \<notin> set (format_emergency_numbers failing_lib (default_info None))
   \<and> \<not> sublist token
        ''Urgent: call 102 or 108 (ambulance) or 100 (police) or AASRA 9820466726 (crisis line) now.''"
proof -
  let ?S = "constant_stages True (default_info None) ''Urgent: call [EMERGENCY_NUMBER] now.''"
  let ?out = "chat_with failing_lib ?S initial_server (one_message ''help'') ''t0'' ''t1''"
  let ?d = "''Urgent: call 102 or 108 (ambulance) or 100 (police) or AASRA 9820466726 (crisis line) now.''"
  have run: "?out = (fst ?out, fst (snd ?out), snd (snd ?out))"
    by simp
  have mem: "CallRefine (''User: help'' @ [nl]) ''help'' ?d True safe_default \<in> set (snd (snd ?out))"
    by (simp add: constant_run_trace)
  have no: "CHR '']'' \<notin> set (format_emergency_numbers failing_lib (default_info None))"
    by (simp add: default_numbers)
  from placeholder_replaced_before_refiner[OF run mem]
  obtain info cache loc cache' where
    svc: "emergency_service ?S cache loc = Inr (info, cache')"
    and imp: "CHR '']'' \<notin> set (format_emergency_numbers failing_lib info) \<longrightarrow> \<not> sublist token ?d"
    by blast
  from svc have "info = default_info None"
    by (simp add: constant_stages_def)
  with imp no have "\<not> sublist token ?d" by simp
  with mem no show ?thesis by blast
qed

section \<open>Properties of a turn without emergency\<close>

text \<open>
  C10, as stated, fails: with no emergency detected, a draft holding the token and a
  refiner that fails open and returns it unchanged, the loop guard can still replace the
  reply, so the token is not delivered. Here the session has two grounding replies in
  its window and the draft has a grounding keyword.
\<close>

theorem token_dropped_by_loop_guard_counterexample:
  "snd (snd (chat failing_lib (drafting_only ''Breathe. Call [EMERGENCY_NUMBER]'')
            grounded_server (one_message ''help'') ''t0'' ''t1''))
   = [CallAnalyze ''help'' grounded_context,
      CallDetect ''help'',
      CallGenerate ''help''
        (get_history (conversation_history grounded_server) (JStr ''default'')
           @ [\<lparr>role = ''user'', content = ''help'', timestamp = ''t0''\<rparr>]),
      CallRefine grounded_context ''help'' ''Breathe. Call [EMERGENCY_NUMBER]'' False safe_default,
      CallDetectLoop (JStr ''default'') ''Breathe. Call [EMERGENCY_NUMBER]'']
   \<and> sublist token ''Breathe. Call [EMERGENCY_NUMBER]''
   \<and> refine failing_lib (drafting_only ''Breathe. Call [EMERGENCY_NUMBER]'') grounded_context ''help''
         ''Breathe. Call [EMERGENCY_NUMBER]'' False safe_default
       = Inr ''Breathe. Call [EMERGENCY_NUMBER]''
   \<and> fst (chat failing_lib (drafting_only ''Breathe. Call [EMERGENCY_NUMBER]'') grounded_server
         (one_message ''help'') ''t0'' ''t1'')
       = Response 200
           [(''reply'', JStr loop_break_reply),
            (''is_emergency'', JBool False),
            (''emergency_type'', JStr ''none''),
            (''pre_check_data'', JObj safe_default),
            (''loop_detected'', JBool True)]
   \<and> \<not> sublist token loop_break_reply"
  by code_simp

lemma urgent_line_facts: "\<not> has_grounding urgent_line" "sublist token urgent_line"
  by code_simp+

lemma generate_response_fallback:
  assumes "soulene_model M (format_history_for_gemini history) message = Inl x"
    and "\<exists>s \<in> set danger_indicators. sublist s (lower (strip message))"
  shows "generate_response M message history = Inr urgent_line"
  using assms by (simp add: generate_response_def rule_based_response_def Let_def)

lemma refine_fails_open:
  assumes "analysis_input lib c m d e p = Inr input" and "counter_llm M input = Inl x"
  shows "refine lib M c m d e p = Inr d"
  using assms by (simp add: refine_def refine_try_def)

text \<open>
  C10, amended. On every turn whose refiner call carries \<open>is_emergency = false\<close>, the draft
  passed to the refiner is the drafter's reply as it is, token included. If the refiner
  returns that draft unchanged and the response reports no loop, the reply of the response
  is that draft; a request that ends in the 200 response reports no loop on a draft without
  grounding keyword, such as the urgent line of the fallback drafter, which holds the
  token. The fallback drafter answers the urgent line when the model raises and the message
  has a danger phrase, and the refiner returns the draft when its input is built and its
  model raises.
\<close>

theorem unresolved_token_reaches_user:
  assumes "chat_with lib S srv rq t_user t_reply = (Response code body, srv', calls)"
    and "CallRefine ctx msg d False pc \<in> set calls"
  shows "(\<exists>hist. soulene_ai S msg hist = Inr d)
       \<and> (counter_ai S ctx msg d False pc = Inr d
            \<and> map_of body ''loop_detected'' = Some (JBool False)
          \<longrightarrow> map_of body ''reply'' = Some (JStr d))
       \<and> (counter_ai S ctx msg d False pc = Inr d \<and> code = 200 \<and> \<not> has_grounding d
          \<longrightarrow> map_of body ''reply'' = Some (JStr d))
       \<and> \<not> has_grounding urgent_line
       \<and> sublist token urgent_line
       \<and> (soulene_model M (format_history_for_gemini history) message = Inl x
            \<and> (\<exists>s \<in> set danger_indicators. sublist s (lower (strip message)))
          \<longrightarrow> generate_response M message history = Inr urgent_line)
       \<and> (analysis_input lib context message draft False assessment = Inr input
            \<and> counter_llm M input = Inl x
          \<longrightarrow> refine lib M context message draft False assessment = Inr draft)"
proof -
  from assms(2)
  have "CallRefine ctx msg d False pc \<in> set (snd (snd (Response code body, srv', calls)))"
    by simp
  from chat_with_refine_call[OF assms(1) this]
  obtain sid where ri: "refiner_input lib S sid t_reply (Response code body, srv', calls)
                          ctx msg d False pc None"
    by auto
  from ri have a: "\<exists>hist. soulene_ai S msg hist = Inr d"
    by (auto simp: refiner_input_def substitute_placeholder_def)
  have b: "map_of body ''loop_detected'' = Some (JBool False) \<longrightarrow> map_of body ''reply'' = Some (JStr d)"
    and c: "code = 200 \<and> \<not> has_grounding d \<longrightarrow> map_of body ''reply'' = Some (JStr d)"
    if "counter_ai S ctx msg d False pc = Inr d"
  proof -
    from ri that obtain srv2 et calls4 where
      "loop_control lib srv2 sid t_reply pc False et d calls4 = (Response code body, srv', calls)"
      by (auto simp: refiner_input_def)
    from loop_control_reply[OF this]
    show "map_of body ''loop_detected'' = Some (JBool False) \<longrightarrow> map_of body ''reply'' = Some (JStr d)"
      and "code = 200 \<and> \<not> has_grounding d \<longrightarrow> map_of body ''reply'' = Some (JStr d)"
      by simp_all
  qed
  from a b c urgent_line_facts show ?thesis
    by (auto simp: generate_response_fallback refine_fails_open)
qed

lemma all_down_run:
  "chat_with failing_lib (components_of failing_lib all_down) initial_server
     (one_message ''I will kill myself'') ''t0'' ''t1''
   = (Response 200
        [(''reply'', JStr urgent_line),
         (''is_emergency'', JBool False),
         (''emergency_type'', JStr ''none''),
         (''pre_check_data'', JObj safe_default),
         (''loop_detected'', JBool False)],
      snd (chat_with failing_lib (components_of failing_lib all_down) initial_server
             (one_message ''I will kill myself'') ''t0'' ''t1''))"
proof -
  have "fst (chat failing_lib all_down initial_server (one_message ''I will kill myself'') ''t0'' ''t1'')
        = Response 200
            [(''reply'', JStr urgent_line),
             (''is_emergency'', JBool False),
             (''emergency_type'', JStr ''none''),
             (''pre_check_data'', JObj safe_default),
             (''loop_detected'', JBool False)]"
    by code_simp
  then show ?thesis
    by (metis chat_def prod.collapse)
qed

lemma all_down_trace:
  "CallRefine (''User: I will kill myself'' @ [nl]) ''I will kill myself'' urgent_line False safe_default
     \<in> set (snd (snd (chat failing_lib all_down initial_server
                (one_message ''I will kill myself'') ''t0'' ''t1'')))"
  by code_simp

theorem unresolved_token_reaches_user_witness:
  "CallRefine (''User: I will kill myself'' @ [nl]) ''I will kill myself'' urgent_line False safe_default
     \<in> set (snd (snd (chat_with failing_lib (components_of failing_lib all_down) initial_server
                (one_message ''I will kill myself'') ''t0'' ''t1'')))
   \<and> counter_ai (components_of failing_lib all_down) (''User: I will kill myself'' @ [nl])
        ''I will kill myself'' urgent_line False safe_default = Inr urgent_line
   \<and> \<not> has_grounding urgent_line
   \<and> soulene_model all_down (format_history_for_gemini []) ''I will kill myself''
       = Inl (CapabilityFailure ''down'')
   \<and> generate_response all_down ''I will kill myself'' [] = Inr urgent_line
   \<and> map_of [(''reply'', JStr urgent_line),
         (''is_emergency'', JBool False),
         (''emergency_type'', JStr ''none''),
         (''pre_check_data'', JObj safe_default),
         (''loop_detected'', JBool False)] ''reply'' = Some (JStr urgent_line)
   \<and> sublist token urgent_line"
proof -
  let ?S = "components_of failing_lib all_down"
  let ?out = "chat_with failing_lib ?S initial_server (one_message ''I will kill myself'') ''t0'' ''t1''"
  let ?ctx = "''User: I will kill myself'' @ [nl]"
  have mem: "CallRefine ?ctx ''I will kill myself'' urgent_line False safe_default
               \<in> set (snd (snd ?out))"
    using all_down_trace by (simp add: chat_def)
  have run: "?out = (Response 200
        [(''reply'', JStr urgent_line),
         (''is_emergency'', JBool False),
         (''emergency_type'', JStr ''none''),
         (''pre_check_data'', JObj safe_default),
         (''loop_detected'', JBool False)], fst (snd ?out), snd (snd ?out))"
    using all_down_run by simp
  have ca: "counter_ai ?S ?ctx ''I will kill myself'' urgent_line False safe_default = Inr urgent_line"
    by (simp add: components_of_def refine_def refine_try_def all_down_def analysis_input_def
          failing_lib_def safe_default_def)
  have sm: "soulene_model all_down (format_history_for_gemini []) ''I will kill myself''
              = Inl (CapabilityFailure ''down'')"
    by (simp add: all_down_def)
  have dg: "\<exists>s \<in> set danger_indicators. sublist s (lower (strip ''I will kill myself''))"
    by code_simp
  note th = unresolved_token_reaches_user[OF run mem, of all_down "[]" "''I will kill myself''"
      "CapabilityFailure ''down''"]
  from th ca have r: "map_of [(''reply'', JStr urgent_line),
         (''is_emergency'', JBool False),
         (''emergency_type'', JStr ''none''),
         (''pre_check_data'', JObj safe_default),
         (''loop_detected'', JBool False)] ''reply'' = Some (JStr urgent_line)"
    by blast
  from th sm dg have g: "generate_response all_down ''I will kill myself'' [] = Inr urgent_line"
    by blast
  from th have u: "\<not> has_grounding urgent_line" "sublist token urgent_line"
    by blast+
  from mem ca sm g r u show ?thesis
    by blast
qed

end
